theory Spec2Isabelle
  imports Main "HOL-Library.Char_ord" "HOL-Library.List_Lexorder"
begin

section \<open>Strings\<close>

text \<open>
  JavaScript strings are modelled as \<open>string\<close> (lists of bytes). The comparison
  operators \<open><\<close> and \<open>>\<close> of JavaScript compare strings lexicographically unit by
  unit, a proper prefix being the smaller; this is the order of
  \<open>HOL-Library.List_Lexorder\<close> over \<open>HOL-Library.Char_ord\<close>.
\<close>

text \<open>\<open>s.split(sep)\<close> for a one-character separator: never empty, \<open>''''.split('/')\<close>
  is \<open>['''']\<close>.\<close>

fun split :: "char \<Rightarrow> string \<Rightarrow> string list" where
  "split sep [] = [[]]"
| "split sep (c # cs) =
     (if c = sep then [] # split sep cs
      else (case split sep cs of [] \<Rightarrow> [[c]] | s # ss \<Rightarrow> (c # s) # ss))"

text \<open>\<open>l.join(sep)\<close>.\<close>

fun joinWith :: "string \<Rightarrow> string list \<Rightarrow> string" where
  "joinWith sep [] = []"
| "joinWith sep [s] = s"
| "joinWith sep (s # t # ss) = s @ sep @ joinWith sep (t # ss)"

text \<open>\<open>s.toLowerCase()\<close> on the ASCII letters.\<close>

definition lowerChar :: "char \<Rightarrow> char" where
  "lowerChar c =
     (if CHR ''A'' \<le> c \<and> c \<le> CHR ''Z'' then char_of (of_char c + (32::nat)) else c)"

definition toLowerCase :: "string \<Rightarrow> string" where
  "toLowerCase s = map lowerChar s"

section \<open>Route identities\<close>

text \<open>
  \<open>AutoGeneratedVars\<close> is the shape of a generated identity module. Its regular
  expression \<open>paramExtract\<close> is taken as the function it computes on a path:
  \<open>path.match(paramExtract)\<close> is \<open>None\<close> for \<open>null\<close> and otherwise the match array (the
  whole match first, then the captures); \<open>paramExtract.test(path)\<close> says whether there
  is a match.
\<close>

record AutoGeneratedVars =
  pathname :: string
  route :: string
  paramKeys :: "string list"
  paramExtract :: "string \<Rightarrow> string list option"

subsection \<open>sortCompiledRoutes\<close>

text \<open>\<open>s[0] === '['\<close>: false for the empty string, whose \<open>s[0]\<close> is \<open>undefined\<close>.\<close>

definition startsBracket :: "string \<Rightarrow> bool" where
  "startsBracket s = (case s of [] \<Rightarrow> False | c # _ \<Rightarrow> c = CHR ''['')"

text \<open>\<open>bSlipt[i]?.[0] === '['\<close>: false when \<open>i\<close> is past the end of \<open>bSlipt\<close>.\<close>

definition startsBracketAt :: "string list \<Rightarrow> nat \<Rightarrow> bool" where
  "startsBracketAt l i = (i < length l \<and> startsBracket (l ! i))"

text \<open>
  The \<open>for\<close> loop of \<open>sortCompiledRoutes\<close> from index \<open>i\<close> on: \<open>Some r\<close> when the loop
  returns \<open>r\<close>, \<open>None\<close> when it runs to the end of \<open>aSlipt\<close>.
\<close>

function segmentLoop :: "string list \<Rightarrow> string list \<Rightarrow> nat \<Rightarrow> int option" where
  "segmentLoop aSlipt bSlipt i =
     (if i < length aSlipt then
        (if startsBracket (aSlipt ! i) \<and> startsBracketAt bSlipt i
           then segmentLoop aSlipt bSlipt (Suc i)
         else if startsBracket (aSlipt ! i) then Some 1
         else if startsBracketAt bSlipt i then Some (- 1)
         else segmentLoop aSlipt bSlipt (Suc i))
      else None)"
  by pat_completeness auto
termination
  by (relation "measure (\<lambda>(a, b, i). length a - i)") auto

declare segmentLoop.simps [simp del]

definition sortCompiledRoutes :: "AutoGeneratedVars \<Rightarrow> AutoGeneratedVars \<Rightarrow> int" where
  "sortCompiledRoutes a b =
     (case segmentLoop (split CHR ''/'' (pathname a)) (split CHR ''/'' (pathname b)) 0 of
        Some r \<Rightarrow> r
      | None \<Rightarrow>
          if toLowerCase (route b) > toLowerCase (route a) then - 1
          else if toLowerCase (route b) < toLowerCase (route a) then 1
          else int (length (pathname b)) - int (length (pathname a)))"

text \<open>Which segments of a template are bracketed.\<close>

definition kinds :: "string list \<Rightarrow> bool list" where
  "kinds segs = map startsBracket segs"

text \<open>Two identities whose templates have the same number of segments.\<close>

definition sameSegmentCount :: "AutoGeneratedVars \<Rightarrow> AutoGeneratedVars \<Rightarrow> bool" where
  "sameSegmentCount a b =
     (length (split CHR ''/'' (pathname a)) = length (split CHR ''/'' (pathname b)))"

subsection \<open>Array.prototype.sort\<close>

text \<open>
  \<open>l.sort(comparefn)\<close>. The language fixes the result when \<open>comparefn\<close> is a consistent
  comparator, and then it is the stable sort by it: \<open>x\<close> goes before \<open>y\<close> when
  \<open>comparefn(x, y) < 0\<close>, and elements that compare as \<open>0\<close> keep their order. The stable
  insertion sort computes it.
\<close>

fun insertSorted :: "('a \<Rightarrow> 'a \<Rightarrow> int) \<Rightarrow> 'a \<Rightarrow> 'a list \<Rightarrow> 'a list" where
  "insertSorted comparefn x [] = [x]"
| "insertSorted comparefn x (y # ys) =
     (if comparefn x y \<le> 0 then x # y # ys else y # insertSorted comparefn x ys)"

definition sortArray :: "('a \<Rightarrow> 'a \<Rightarrow> int) \<Rightarrow> 'a list \<Rightarrow> 'a list" where
  "sortArray comparefn l = foldr (insertSorted comparefn) l []"

section \<open>Requests, responses and what handlers do\<close>

text \<open>
  \<open>IntREST.IntResponse\<close>: a status, a body and headers, each of which may be missing
  (the no-content response is \<open>{status: 204}\<close>).
\<close>

datatype body = FileStream string | MessageBody string | OtherBody string

record IntResponse =
  status :: "nat option"
  body :: "body option"
  headers :: "(string \<times> string) list"

text \<open>
  A value that reaches a \<open>catch\<close>: an \<open>Error\<close> with its message, another non-null object
  (taken as the response it is forwarded as), or a primitive.
\<close>

datatype thrown = JsError string | JsObject IntResponse | JsPrimitive string

text \<open>What awaiting a promise gives: its value, the value it rejects with, or nothing
  when it never settles.\<close>

datatype 'a awaited = Resolved 'a | Rejected thrown | Pending

type_synonym settle = "IntResponse option awaited"

text \<open>
  The \<open>custom\<close> bag and the data given to a continuation are objects of strings and
  nested objects, as ordered property lists.
\<close>

datatype jsval = JLeaf string | JObj "(string \<times> jsval) list"

type_synonym CustomRequestData = "(string \<times> jsval) list"

text \<open>
  \<open>IntREST.IntRequest\<close>, the request context. A parameter is \<open>None\<close> when
  \<open>zipObject\<close> found no value for its key (\<open>undefined\<close>). The field \<open>method\<close> is
  \<open>reqMethod\<close> here and \<open>headers\<close> is \<open>reqHeaders\<close>. \<open>tunnel\<close> builds the context as
  \<open>{...data, params: {}, query: ...}\<close>: it has a \<open>custom\<close> only when the request data
  carries one, so \<open>custom\<close> is \<open>None\<close> while it is \<open>undefined\<close>.
\<close>

record IntRequest =
  reqMethod :: string
  path :: string
  reqHeaders :: "(string \<times> string) list"
  query :: string
  params :: "string \<rightharpoonup> string option"
  custom :: "CustomRequestData option"

text \<open>
  A request handler is the promise it returns for a context. A middleware handler is
  given the context and a continuation; what it does with them is a script: it settles,
  or it invokes the continuation with optional data and goes on from what the
  continuation returned. Writes of a handler to the context other than through the
  continuation are not modelled.
\<close>

type_synonym RequestHandler = "IntRequest \<Rightarrow> settle"

datatype mw_script = Settle settle | Invoke "CustomRequestData option" "settle \<Rightarrow> mw_script"

type_synonym MiddlewareHandler = "IntRequest \<Rightarrow> mw_script"

text \<open>An export of a loaded module: missing, a value that is no function (truthy or
  not), or a function.\<close>

datatype 'h export = Undefined | NotFunction bool | Function 'h

text \<open>\<open>a || b\<close> on exports.\<close>

fun orElse :: "'h export \<Rightarrow> 'h export \<Rightarrow> 'h export" where
  "orElse Undefined b = b"
| "orElse (NotFunction t) b = (if t then NotFunction t else b)"
| "orElse (Function h) b = Function h"

record Config =
  messages_NOT_FOUND :: "string option"
  messages_METHOD_NOT_ALLOWED :: "string option"
  limits_middleware_timeout :: "nat option"

text \<open>\<open>x || d\<close> for an optional string (the empty string is falsy) and an optional
  number (\<open>0\<close> is falsy).\<close>

definition strOr :: "string option \<Rightarrow> string \<Rightarrow> string" where
  "strOr x d = (case x of None \<Rightarrow> d | Some s \<Rightarrow> if s = [] then d else s)"

definition numOr :: "nat option \<Rightarrow> nat \<Rightarrow> nat" where
  "numOr x d = (case x of None \<Rightarrow> d | Some n \<Rightarrow> if n = 0 then d else n)"

definition truthy :: "string option \<Rightarrow> bool" where
  "truthy x = (case x of None \<Rightarrow> False | Some s \<Rightarrow> s \<noteq> [])"

section \<open>Paths\<close>

text \<open>\<open>normalizePath\<close> of \<open>src/utils/path.ts\<close>: every run of slashes and backslashes
  becomes one slash, then the leading slash goes.\<close>

definition isSlash :: "char \<Rightarrow> bool" where
  "isSlash c = (c = CHR ''/'' \<or> c = CHR 0x5C)"

function collapseSlashes :: "string \<Rightarrow> string" where
  "collapseSlashes [] = []"
| "collapseSlashes (c # cs) =
     (if isSlash c then CHR ''/'' # collapseSlashes (dropWhile isSlash cs)
      else c # collapseSlashes cs)"
  by pat_completeness auto
termination
  by (relation "measure length") (auto simp: length_dropWhile_le less_Suc_eq_le)

definition normalizePath :: "string \<Rightarrow> string" where
  "normalizePath p = dropWhile isSlash (collapseSlashes p)"

text \<open>\<open>globFindAll\<close> of \<open>src/utils/path.ts\<close>, on the list the \<open>glob\<close> package found.\<close>

definition globFindAll :: "string list \<Rightarrow> string list" where
  "globFindAll res = map normalizePath res"

text \<open>
  \<open>join\<close> of Node's \<open>path/posix\<close>: the non-empty arguments joined by a slash and
  normalised (empty and \<open>.\<close> segments dropped, \<open>..\<close> taking the segment before it).
\<close>

fun normalizeString :: "bool \<Rightarrow> string list \<Rightarrow> string list \<Rightarrow> string list" where
  "normalizeString allowAboveRoot res [] = rev res"
| "normalizeString allowAboveRoot res (s # ss) =
     (if s = [] \<or> s = ''.'' then normalizeString allowAboveRoot res ss
      else if s = ''..'' then
        (if res \<noteq> [] \<and> hd res \<noteq> ''..'' then normalizeString allowAboveRoot (tl res) ss
         else if allowAboveRoot then normalizeString allowAboveRoot (''..'' # res) ss
         else normalizeString allowAboveRoot res ss)
      else normalizeString allowAboveRoot (s # res) ss)"

definition posixNormalize :: "string \<Rightarrow> string" where
  "posixNormalize p =
     (if p = [] then ''.''
      else
        (let isAbsolute = (hd p = CHR ''/'');
             trailingSeparator = (last p = CHR ''/'');
             q = joinWith ''/'' (normalizeString (\<not> isAbsolute) [] (split CHR ''/'' p))
         in if q = [] then (if isAbsolute then ''/'' else if trailingSeparator then ''./'' else ''.'')
            else (if isAbsolute then ''/'' else []) @ q @ (if trailingSeparator then ''/'' else [])))"

definition posixJoin :: "string list \<Rightarrow> string" where
  "posixJoin args =
     (let joined = filter (\<lambda>a. a \<noteq> []) args
      in if joined = [] then ''.'' else posixNormalize (joinWith ''/'' joined))"

text \<open>\<open>p.includes(pn)\<close> and \<open>p.replace(pat, rep)\<close> for a string pattern (the first
  occurrence only).\<close>

fun includesStr :: "string \<Rightarrow> string \<Rightarrow> bool" where
  "includesStr [] pn = (pn = [])"
| "includesStr (c # cs) pn = (take (length pn) (c # cs) = pn \<or> includesStr cs pn)"

fun replaceFirst :: "string \<Rightarrow> string \<Rightarrow> string \<Rightarrow> string" where
  "replaceFirst pat rep [] = (if pat = [] then rep else [])"
| "replaceFirst pat rep (c # cs) =
     (if take (length pat) (c # cs) = pat then rep @ drop (length pat) (c # cs)
      else c # replaceFirst pat rep cs)"

section \<open>Library functions the dispatcher calls\<close>

text \<open>
  \<open>_.merge(object, source)\<close> of lodash. The destination is \<open>Object(object)\<close>: a new empty
  object when \<open>object\<close> is \<open>undefined\<close>. A missing source changes nothing; otherwise
  each property of the source is assigned to the destination, two objects under one key
  being merged recursively and any other value overwriting.
\<close>

fun assignValue :: "string \<Rightarrow> jsval \<Rightarrow> (string \<times> jsval) list \<Rightarrow> (string \<times> jsval) list" where
  "assignValue k v [] = [(k, v)]"
| "assignValue k v ((k', v') # ps) =
     (if k = k' then (k, v) # ps else (k', v') # assignValue k v ps)"

fun baseMerge :: "(string \<times> jsval) list \<Rightarrow> (string \<times> jsval) list \<Rightarrow> (string \<times> jsval) list" where
  "baseMerge object [] = object"
| "baseMerge object ((k, srcValue) # source) =
     baseMerge
       (assignValue k
          (case (map_of object k, srcValue) of
             (Some (JObj objValue), JObj s) \<Rightarrow> JObj (baseMerge objValue s)
           | _ \<Rightarrow> srcValue)
          object)
       source"

definition merge :: "CustomRequestData option \<Rightarrow> CustomRequestData option \<Rightarrow> CustomRequestData" where
  "merge object c =
     (let object' = (case object of None \<Rightarrow> [] | Some obj \<Rightarrow> obj)
      in case c of None \<Rightarrow> object' | Some source \<Rightarrow> baseMerge object' source)"

text \<open>\<open>_.zipObject(props, values)\<close>: the keys are assigned in order, a key past the
  end of the values to \<open>undefined\<close>.\<close>

fun zipObjectInto :: "(string \<rightharpoonup> string option) \<Rightarrow> string list \<Rightarrow> string list
    \<Rightarrow> (string \<rightharpoonup> string option)" where
  "zipObjectInto result [] vs = result"
| "zipObjectInto result (k # ks) vs =
     zipObjectInto (result(k \<mapsto> (case vs of [] \<Rightarrow> None | v # _ \<Rightarrow> Some v))) ks (tl vs)"

definition zipObject :: "string list \<Rightarrow> string list \<Rightarrow> (string \<rightharpoonup> string option)" where
  "zipObject props vs = zipObjectInto Map.empty props vs"

text \<open>
  \<open>unescape\<close> and \<open>escape\<close> of Node's \<open>querystring\<close>, on the bytes of a string:
  \<open>unescape\<close> turns \<open>%\<close> and two hexadecimal digits into the byte they name and keeps
  every other character; \<open>escape\<close> writes every byte outside
  \<open>A-Z a-z 0-9 - _ . ! ~ * ' ( )\<close> as \<open>%XX\<close>.
\<close>

definition unhex :: "char \<Rightarrow> nat option" where
  "unhex c =
     (if CHR ''0'' \<le> c \<and> c \<le> CHR ''9'' then Some (of_char c - 48)
      else if CHR ''A'' \<le> c \<and> c \<le> CHR ''F'' then Some (of_char c - 55)
      else if CHR ''a'' \<le> c \<and> c \<le> CHR ''f'' then Some (of_char c - 87)
      else None)"

fun unescape :: "string \<Rightarrow> string" where
  "unescape (c # h # l # cs) =
     (if c = CHR ''%'' then
        (case (unhex h, unhex l) of
           (Some hexHigh, Some hexLow) \<Rightarrow> char_of (hexHigh * 16 + hexLow) # unescape cs
         | _ \<Rightarrow> c # unescape (h # l # cs))
      else c # unescape (h # l # cs))"
| "unescape cs = cs"

definition hexDigit :: "nat \<Rightarrow> char" where
  "hexDigit n = (if n < 10 then char_of (48 + n) else char_of (55 + n))"

definition noEscape :: "char \<Rightarrow> bool" where
  "noEscape c =
     ((CHR ''A'' \<le> c \<and> c \<le> CHR ''Z'') \<or> (CHR ''a'' \<le> c \<and> c \<le> CHR ''z'')
      \<or> (CHR ''0'' \<le> c \<and> c \<le> CHR ''9'') \<or> c \<in> set ''-_.!~*'' \<or> c = CHR 0x27
      \<or> c = CHR ''('' \<or> c = CHR '')'')"

definition escapeChar :: "char \<Rightarrow> string" where
  "escapeChar c =
     (if noEscape c then [c]
      else [CHR ''%'', hexDigit (of_char c div 16), hexDigit (of_char c mod 16)])"

definition escape :: "string \<Rightarrow> string" where
  "escape s = concat (map escapeChar s)"

section \<open>What the dispatcher finds on disk\<close>

text \<open>
  The collaborators of \<open>tunnel\<close> that are not in these files are its parameters:
  the static folder \<open>getFolderPath\<close> found (if any), the first file \<open>glob\<close> finds for a
  folder and a request path, the content type \<open>lookup\<close> of \<open>mime-types\<close> gives a file
  (none for \<open>false\<close>), the directory of the compiled routes (relative, and under
  \<open>process.cwd()\<close>), the identity modules in the order \<open>glob\<close> listed them, what importing a \<open>route.mjs\<close> gives (the module's exports or
  the value the import throws), the middleware files \<open>glob\<close> listed, in its order, and
  the exports of each.
\<close>

record world =
  staticFolder :: "string option"
  globStatic :: "string \<Rightarrow> string \<Rightarrow> string option"
  mimeLookup :: "string \<Rightarrow> string option"
  basePathCompiled :: string
  cwdBasePath :: string
  identitiesModules :: "AutoGeneratedVars list"
  importRoute :: "string \<Rightarrow> thrown + (string \<Rightarrow> RequestHandler export)"
  globMiddlewarePoints :: "string list"
  importMiddleware :: "string \<Rightarrow> string \<Rightarrow> MiddlewareHandler export"

text \<open>\<open>globFind\<close> of \<open>src/utils/path.ts\<close>: \<open>res[0] && normalizePath(res[0])\<close>.\<close>

definition globFind :: "world \<Rightarrow> string \<Rightarrow> string \<Rightarrow> string option" where
  "globFind w folder p =
     (case globStatic w folder p of None \<Rightarrow> None
      | Some r \<Rightarrow> if r = [] then Some r else Some (normalizePath r))"

subsection \<open>getIdentities\<close>

definition getIdentities :: "world \<Rightarrow> string \<Rightarrow> AutoGeneratedVars list" where
  "getIdentities w r =
     sortArray sortCompiledRoutes
       (filter (\<lambda>m. paramExtract m r \<noteq> None) (identitiesModules w))"

subsection \<open>getMiddlewares\<close>

record MiddlewareModule =
  handler :: MiddlewareHandler
  mwPathname :: string

text \<open>\<open>pathname.split('/').map((_, i, l) => (i > 0 ? l.slice(0, i + 1).join('/') : '/'))\<close>\<close>

definition pathnamesOf :: "string \<Rightarrow> string list" where
  "pathnamesOf p =
     (let l = split CHR ''/'' p
      in map (\<lambda>i. if i > 0 then joinWith ''/'' (take (i + 1) l) else ''/'') [0..<length l])"

text \<open>The modules whose handler is a function, in the order of the list.\<close>

fun functionModules :: "(MiddlewareHandler export \<times> string) list \<Rightarrow> MiddlewareModule list" where
  "functionModules [] = []"
| "functionModules ((Function h, n) # ms) =
     \<lparr>handler = h, mwPathname = n\<rparr> # functionModules ms"
| "functionModules (_ # ms) = functionModules ms"

text \<open>\<open>getMiddlewares\<close> of \<open>src/@types/internal.d.ts\<close>.\<close>

definition getMiddlewares :: "world \<Rightarrow> string \<Rightarrow> MiddlewareModule list" where
  "getMiddlewares w p =
     (let basePath = cwdBasePath w;
          pathnames = map (\<lambda>q. normalizePath (posixJoin [basePath, q, ''middleware.mjs'']))
                        (pathnamesOf p);
          middlewarePaths = globFindAll (globMiddlewarePoints w);
          validMiddlewarePaths = filter (\<lambda>f. list_ex (\<lambda>pn. f = pn) pathnames) middlewarePaths;
          middlewareModules =
            map (\<lambda>f. (orElse (importMiddleware w f ''middleware'') (importMiddleware w f ''default''),
                      replaceFirst basePath [] f))
              validMiddlewarePaths
      in functionModules middlewareModules)"

text \<open>\<open>getMiddlewares\<close> of \<open>unnamed/part_000\<close>.\<close>

definition getMiddlewares_p0 :: "world \<Rightarrow> string \<Rightarrow> MiddlewareModule list" where
  "getMiddlewares_p0 w p =
     (let basePath = cwdBasePath w;
          pathnames = pathnamesOf p;
          middlewarePaths = globFindAll (globMiddlewarePoints w);
          validMiddlewarePaths = filter (\<lambda>f. list_ex (\<lambda>pn. includesStr f pn) pathnames) middlewarePaths;
          middlewareModules =
            map (\<lambda>f. (importMiddleware w f ''handler'', replaceFirst basePath [] f))
              validMiddlewarePaths
      in functionModules middlewareModules)"

section \<open>The middleware chain\<close>

text \<open>
  The state of one request while it is dispatched: the context, the calls made so far
  (kept to say what ran), and the timers that were set and never cleared, each with the
  error its callback throws and its delay.
\<close>

datatype event =
  ServeStatic | GetIdentities | ImportRoute string | GetMiddlewares
  | CallMiddleware string | CallHandler

record chainState =
  ctx :: IntRequest
  events :: "event list"
  timers :: "(thrown \<times> nat) list"

definition emit :: "event \<Rightarrow> chainState \<Rightarrow> chainState" where
  "emit e s = s\<lparr>events := events s @ [e]\<rparr>"

definition timeoutError :: "MiddlewareModule \<Rightarrow> thrown" where
  "timeoutError middleware = JsError (''Middleware handler timeout: '' @ mwPathname middleware)"

definition timeoutOf :: "Config \<Rightarrow> nat" where
  "timeoutOf config = numOr (limits_middleware_timeout config) 5000"

text \<open>\<open>context.custom = _.merge(context.custom, c)\<close>\<close>

definition mergeCustom :: "CustomRequestData option \<Rightarrow> IntRequest \<Rightarrow> IntRequest" where
  "mergeCustom c context = context\<lparr>custom := Some (merge (custom context) c)\<rparr>"

subsection \<open>callRecursiveMiddlewares (src/@types/internal.d.ts)\<close>

text \<open>
  A middleware's script run against the continuation \<open>next\<close>. The flag says whether the
  continuation was invoked, which is when \<open>clearTimeout\<close> runs.
\<close>

primrec runScript :: "mw_script \<Rightarrow> (CustomRequestData option \<Rightarrow> chainState \<Rightarrow> settle \<times> chainState)
    \<Rightarrow> chainState \<Rightarrow> settle \<times> chainState \<times> bool" where
  "runScript (Settle r) next s = (r, s, False)"
| "runScript (Invoke c k) next s =
     (case next c s of (d, s') \<Rightarrow>
        (case runScript (k d) next s' of (r, s'', _) \<Rightarrow> (r, s'', True)))"

text \<open>
  The timer is set before the handler is called and its callback throws outside every
  promise; a timer that is never cleared is left in \<open>timers\<close>.
\<close>

fun callRecursiveMiddlewares :: "MiddlewareModule list \<Rightarrow> Config \<Rightarrow> RequestHandler
    \<Rightarrow> chainState \<Rightarrow> settle \<times> chainState" where
  "callRecursiveMiddlewares [] config requestHandler s =
     (requestHandler (ctx s), emit CallHandler s)"
| "callRecursiveMiddlewares (middleware # rest) config requestHandler s =
     (case runScript (handler middleware (ctx s))
             (\<lambda>c s'. callRecursiveMiddlewares rest config requestHandler
                        (s'\<lparr>ctx := mergeCustom c (ctx s')\<rparr>))
             (emit (CallMiddleware (mwPathname middleware)) s) of
        (r, s', cleared) \<Rightarrow>
          (r, if cleared then s'
              else s'\<lparr>timers := timers s' @ [(timeoutError middleware, timeoutOf config)]\<rparr>))"

subsection \<open>The loop over the middlewares (unnamed/part_000)\<close>

text \<open>
  Here the continuation only clears the timer, merges and sets \<open>resolved\<close>; it returns
  nothing, so the script goes on from \<open>undefined\<close>.
\<close>

primrec runScript_p0 :: "mw_script \<Rightarrow> IntRequest \<Rightarrow> bool \<Rightarrow> settle \<times> IntRequest \<times> bool" where
  "runScript_p0 (Settle r) context resolved = (r, context, resolved)"
| "runScript_p0 (Invoke c k) context resolved =
     runScript_p0 (k (Resolved None)) (mergeCustom c context) True"

text \<open>
  The promise of one step. The timer is set only once the handler's promise has settled:
  the step resolves with \<open>res\<close> when there is a response or the continuation was invoked,
  it rejects with what the handler threw, it rejects with the timeout error when the
  handler returned nothing without invoking the continuation, and it never settles when
  the handler's promise never does.
\<close>

definition middlewareStep_p0 :: "MiddlewareModule \<Rightarrow> Config \<Rightarrow> chainState \<Rightarrow> settle \<times> chainState" where
  "middlewareStep_p0 middleware config s =
     (case runScript_p0 (handler middleware (ctx s)) (ctx s) False of
        (Resolved res, context, resolved) \<Rightarrow>
          if res \<noteq> None \<or> resolved then (Resolved res, s\<lparr>ctx := context\<rparr>)
          else (Rejected (timeoutError middleware), s\<lparr>ctx := context\<rparr>)
      | (Rejected error, context, resolved) \<Rightarrow> (Rejected error, s\<lparr>ctx := context\<rparr>)
      | (Pending, context, resolved) \<Rightarrow> (Pending, s\<lparr>ctx := context\<rparr>))"

fun middlewareLoop_p0 :: "MiddlewareModule list \<Rightarrow> Config \<Rightarrow> chainState \<Rightarrow> settle \<times> chainState" where
  "middlewareLoop_p0 [] config s = (Resolved None, s)"
| "middlewareLoop_p0 (middleware # rest) config s =
     (case middlewareStep_p0 middleware config (emit (CallMiddleware (mwPathname middleware)) s) of
        (Resolved None, s') \<Rightarrow> middlewareLoop_p0 rest config s'
      | (r, s') \<Rightarrow> (r, s'))"

text \<open>The loop, then \<open>if (!response) response = (await route.handler(context)) ?? null\<close>.\<close>

definition chain_p0 :: "MiddlewareModule list \<Rightarrow> Config \<Rightarrow> RequestHandler
    \<Rightarrow> chainState \<Rightarrow> settle \<times> chainState" where
  "chain_p0 middlewares config requestHandler s =
     (case middlewareLoop_p0 middlewares config s of
        (Resolved None, s') \<Rightarrow> (requestHandler (ctx s'), emit CallHandler s')
      | (r, s') \<Rightarrow> (r, s'))"

section \<open>tunnel\<close>

text \<open>What a call of \<open>tunnel\<close> comes to: one response handed to \<open>sendResponse\<close>, a
  value thrown again by its \<open>catch\<close>, or a promise that never settles.\<close>

datatype completion = Sent IntResponse | Rethrown thrown | NeverSettles

record outcome =
  completion :: completion
  selected :: "AutoGeneratedVars option"
  final :: chainState

definition staticFile :: "world \<Rightarrow> IntRequest \<Rightarrow> IntResponse option" where
  "staticFile w context =
     (case staticFolder w of None \<Rightarrow> None
      | Some folder \<Rightarrow>
          if folder = [] then None
          else if \<not> truthy (globFind w folder (path context)) then None
          else (case mimeLookup w (the (globFind w folder (path context))) of
                  None \<Rightarrow> None
                | Some mimeType \<Rightarrow>
                    if mimeType = [] then None
                    else Some \<lparr>status = Some 200,
                               body = Some (FileStream (the (globFind w folder (path context)))),
                               headers = [(''Content-Type'', mimeType)]\<rparr>))"

definition notFound :: "Config \<Rightarrow> IntResponse" where
  "notFound config =
     \<lparr>status = Some 404, body = Some (MessageBody (strOr (messages_NOT_FOUND config) ''Not found'')),
      headers = [(''Content-Type'', ''application/json'')]\<rparr>"

definition methodNotAllowed :: "Config \<Rightarrow> IntResponse" where
  "methodNotAllowed config =
     \<lparr>status = Some 405,
      body = Some (MessageBody (strOr (messages_METHOD_NOT_ALLOWED config) ''Method not allowed'')),
      headers = [(''Content-Type'', ''application/json'')]\<rparr>"

definition noContent :: IntResponse where
  "noContent = \<lparr>status = Some 204, body = None, headers = []\<rparr>"

text \<open>The \<open>catch\<close> of \<open>tunnel\<close>.\<close>

definition catchBlock :: "thrown \<Rightarrow> completion" where
  "catchBlock error =
     (case error of
        JsError message \<Rightarrow>
          Sent \<lparr>status = Some 500, body = Some (MessageBody message),
                headers = [(''Content-Type'', ''application/json'')]\<rparr>
      | JsObject response \<Rightarrow> Sent response
      | JsPrimitive v \<Rightarrow> Rethrown (JsPrimitive v))"

text \<open>
  What becomes of the chain's promise: \<open>if (response) return await sendResponse(response,
  ...)\<close>, else the no-content response, and the \<open>catch\<close> for a rejection.
\<close>

definition respond :: "settle \<Rightarrow> completion" where
  "respond r =
     (case r of
        Resolved (Some response) \<Rightarrow> Sent response
      | Resolved None \<Rightarrow> Sent noContent
      | Rejected error \<Rightarrow> catchBlock error
      | Pending \<Rightarrow> NeverSettles)"

text \<open>The handler taken from a route module: \<open>routeModule[method] || routeModule['ALL']
  || routeModule.default\<close> in \<open>src/@types/internal.d.ts\<close>, \<open>routeModule[method]\<close> in
  \<open>unnamed/part_000\<close>.\<close>

definition routeHandler :: "(string \<Rightarrow> RequestHandler export) \<Rightarrow> string \<Rightarrow> RequestHandler export" where
  "routeHandler routeModule m =
     orElse (routeModule m) (orElse (routeModule ''ALL'') (routeModule ''default''))"

definition routeHandler_p0 :: "(string \<Rightarrow> RequestHandler export) \<Rightarrow> string \<Rightarrow> RequestHandler export" where
  "routeHandler_p0 routeModule m = routeModule m"

text \<open>The file of a route module: \<open>join(basePathCompiled, i.pathname, 'route.mjs')\<close>.\<close>

definition routeFile :: "world \<Rightarrow> AutoGeneratedVars \<Rightarrow> string" where
  "routeFile w i = posixJoin [basePathCompiled w, pathname i, ''route.mjs'']"

text \<open>\<open>Promise.all\<close> over the imports of the route modules: the first import that throws
  decides.\<close>

fun importRoutes :: "world \<Rightarrow> ((string \<Rightarrow> RequestHandler export) \<Rightarrow> string \<Rightarrow> RequestHandler export)
    \<Rightarrow> string \<Rightarrow> AutoGeneratedVars list \<Rightarrow> thrown + (RequestHandler export \<times> AutoGeneratedVars) list" where
  "importRoutes w pick m [] = Inr []"
| "importRoutes w pick m (i # rest) =
     (case importRoute w (routeFile w i) of
        Inl error \<Rightarrow> Inl error
      | Inr routeModule \<Rightarrow>
          (case importRoutes w pick m rest of
             Inl error \<Rightarrow> Inl error
           | Inr routes \<Rightarrow> Inr ((pick routeModule m, i) # routes)))"

text \<open>\<open>routes.find((r) => typeof r.handler === 'function')\<close>\<close>

fun findRoute :: "(RequestHandler export \<times> AutoGeneratedVars) list
    \<Rightarrow> (RequestHandler \<times> AutoGeneratedVars) option" where
  "findRoute [] = None"
| "findRoute ((Function h, i) # routes) = Some (h, i)"
| "findRoute (_ # routes) = findRoute routes"

definition extractParams :: "AutoGeneratedVars \<Rightarrow> string \<Rightarrow> (string \<rightharpoonup> string option)" where
  "extractParams identity p =
     (let paramValues = drop 1 (case paramExtract identity p of None \<Rightarrow> [] | Some m \<Rightarrow> m)
      in zipObject (paramKeys identity) (map unescape paramValues))"

text \<open>
  The body of \<open>tunnel\<close>, which the two files share but for the handler they take from a
  route module, their \<open>getMiddlewares\<close> and the way they run the chain.
\<close>

definition tunnelWith ::
  "((string \<Rightarrow> RequestHandler export) \<Rightarrow> string \<Rightarrow> RequestHandler export)
   \<Rightarrow> (world \<Rightarrow> string \<Rightarrow> MiddlewareModule list)
   \<Rightarrow> (MiddlewareModule list \<Rightarrow> Config \<Rightarrow> RequestHandler \<Rightarrow> chainState \<Rightarrow> settle \<times> chainState)
   \<Rightarrow> world \<Rightarrow> Config \<Rightarrow> IntRequest \<Rightarrow> outcome" where
  "tunnelWith pick getMws chain w config data =
     (let context = data\<lparr>params := Map.empty\<rparr>;
          s0 = \<lparr>ctx = context, events = [], timers = []\<rparr>
      in case staticFile w context of
           Some response \<Rightarrow>
             \<lparr>completion = Sent response, selected = None, final = emit ServeStatic s0\<rparr>
         | None \<Rightarrow>
             (let identities = getIdentities w (path context);
                  s1 = emit GetIdentities s0
              in if identities = [] then
                   \<lparr>completion = Sent (notFound config), selected = None, final = s1\<rparr>
                 else
                   (let s2 = s1\<lparr>events := events s1 @ map (\<lambda>i. ImportRoute (pathname i)) identities\<rparr>
                    in case importRoutes w pick (reqMethod context) identities of
                         Inl error \<Rightarrow>
                           \<lparr>completion = catchBlock error, selected = None, final = s2\<rparr>
                       | Inr routes \<Rightarrow>
                           (case findRoute routes of
                              None \<Rightarrow>
                                \<lparr>completion = Sent (methodNotAllowed config), selected = None,
                                 final = s2\<rparr>
                            | Some (h, identity) \<Rightarrow>
                                (let s3 = s2\<lparr>ctx := (ctx s2)\<lparr>params := extractParams identity (path data)\<rparr>\<rparr>;
                                     middlewares = getMws w (pathname identity);
                                     s4 = emit GetMiddlewares s3
                                 in case chain middlewares config h s4 of
                                      (r, s5) \<Rightarrow>
                                        \<lparr>completion = respond r, selected = Some identity,
                                         final = s5\<rparr>)))))"

text \<open>\<open>tunnel\<close> of \<open>src/@types/internal.d.ts\<close> and \<open>tunnel\<close> of \<open>unnamed/part_000\<close>.\<close>

definition tunnel :: "world \<Rightarrow> Config \<Rightarrow> IntRequest \<Rightarrow> outcome" where
  "tunnel = tunnelWith routeHandler getMiddlewares callRecursiveMiddlewares"

definition tunnel_p0 :: "world \<Rightarrow> Config \<Rightarrow> IntRequest \<Rightarrow> outcome" where
  "tunnel_p0 = tunnelWith routeHandler_p0 getMiddlewares_p0 chain_p0"

section \<open>Templates and their patterns\<close>

text \<open>
  Modelled from the spec: the pattern of a route template. The build step that writes
  \<open>paramExtract\<close> is not among these files; the spec says of it that it "matches a
  candidate path iff the path is structurally conformant (same segment count, literal
  segments equal, bracketed segments bind one segment each)". A segment is bracketed
  when it starts with \<open>[\<close>, which is the test of \<open>sortCompiledRoutes\<close>. The match array
  is the path and then the bound segments in template order.
\<close>

fun matchSegments :: "string list \<Rightarrow> string list \<Rightarrow> string list option" where
  "matchSegments [] [] = Some []"
| "matchSegments (t # ts) (q # qs) =
     (if startsBracket t then map_option ((#) q) (matchSegments ts qs)
      else if t = q then matchSegments ts qs
      else None)"
| "matchSegments _ _ = None"

definition templatePattern :: "string \<Rightarrow> string \<Rightarrow> string list option" where
  "templatePattern t p =
     map_option ((#) p) (matchSegments (split CHR ''/'' t) (split CHR ''/'' p))"

text \<open>The parameter name of a bracketed segment: \<open>id\<close> for \<open>[id]\<close>.\<close>

definition paramName :: "string \<Rightarrow> string" where
  "paramName seg = butlast (tl seg)"

text \<open>The identity of a template whose declared route is the template itself.\<close>

definition identityOf :: "string \<Rightarrow> AutoGeneratedVars" where
  "identityOf t =
     \<lparr>pathname = t, route = t,
      paramKeys = map paramName (filter startsBracket (split CHR ''/'' t)),
      paramExtract = templatePattern t\<rparr>"

text \<open>A template with its bracketed segments replaced, in order, by the given values.\<close>

fun fillSegments :: "string list \<Rightarrow> string list \<Rightarrow> string list" where
  "fillSegments [] vs = []"
| "fillSegments (t # ts) vs =
     (if startsBracket t then
        (case vs of [] \<Rightarrow> t # fillSegments ts [] | v # vs' \<Rightarrow> v # fillSegments ts vs')
      else t # fillSegments ts vs)"

definition fillTemplate :: "string \<Rightarrow> string list \<Rightarrow> string" where
  "fillTemplate t vs = joinWith ''/'' (fillSegments (split CHR ''/'' t) vs)"



text \<open>The calls of the given middlewares, in order.\<close>

definition calls :: "MiddlewareModule list \<Rightarrow> event list" where
  "calls ms = map (\<lambda>m. CallMiddleware (mwPathname m)) ms"

text \<open>A middleware that, whatever the context, invokes its continuation once and returns
  what the continuation returned: \<open>(context, next) => next(c)\<close>.\<close>

definition forwards :: "MiddlewareModule \<Rightarrow> bool" where
  "forwards m = (\<forall>context. \<exists>c. handler m context = Invoke c Settle)"


text \<open>A middleware that, whatever the context, invokes its continuation once with no data
  and returns what the continuation returned: \<open>(context, next) => next()\<close>.\<close>

definition passes :: "MiddlewareModule \<Rightarrow> bool" where
  "passes m = (\<forall>context. handler m context = Invoke None Settle)"


section \<open>Handler resolution, as specified\<close>

fun isFunction :: "'h export \<Rightarrow> bool" where
  "isFunction (Function h) = True"
| "isFunction _ = False"

fun functionOf :: "'h export \<Rightarrow> 'h option" where
  "functionOf (Function h) = Some h"
| "functionOf _ = None"

fun noOtherValue :: "'h export \<Rightarrow> bool" where
  "noOtherValue (NotFunction t) = False"
| "noOtherValue _ = True"

text \<open>
  The handler a route module has for a method as the specification words it: the one
  bound to the method, else the wildcard \<open>ALL\<close>, else the default.
\<close>

definition usable :: "(string \<Rightarrow> RequestHandler export) \<Rightarrow> string \<Rightarrow> RequestHandler option" where
  "usable routeModule m =
     (case functionOf (routeModule m) of
        Some h \<Rightarrow> Some h
      | None \<Rightarrow>
          (case functionOf (routeModule ''ALL'') of
             Some h \<Rightarrow> Some h
           | None \<Rightarrow> functionOf (routeModule ''default'')))"

text \<open>The scan of the ordered matches that stops at the first one with a handler.\<close>

fun firstUsable :: "(AutoGeneratedVars \<Rightarrow> string \<Rightarrow> RequestHandler option) \<Rightarrow> string
    \<Rightarrow> AutoGeneratedVars list \<Rightarrow> (RequestHandler \<times> AutoGeneratedVars) option" where
  "firstUsable lookup m [] = None"
| "firstUsable lookup m (i # rest) =
     (case lookup i m of Some h \<Rightarrow> Some (h, i) | None \<Rightarrow> firstUsable lookup m rest)"

text \<open>A route module whose exports under the method, \<open>ALL\<close> and \<open>default\<close> are functions
  where they exist, as the type \<open>RequestHandler\<close> asks.\<close>

definition functionsOnly :: "(string \<Rightarrow> RequestHandler export) \<Rightarrow> string \<Rightarrow> bool" where
  "functionsOnly routeModule m =
     (noOtherValue (routeModule m) \<and> noOtherValue (routeModule ''ALL'')
      \<and> noOtherValue (routeModule ''default''))"

text \<open>The route module of \<open>i\<close> loads, as \<open>M i\<close>, and is such a module.\<close>

definition loaded :: "world \<Rightarrow> (AutoGeneratedVars \<Rightarrow> string \<Rightarrow> RequestHandler export) \<Rightarrow> string
    \<Rightarrow> AutoGeneratedVars \<Rightarrow> bool" where
  "loaded w M m i = (importRoute w (routeFile w i) = Inr (M i) \<and> functionsOnly (M i) m)"

section \<open>Middleware applicability, as specified\<close>

text \<open>The cumulative prefixes of a pathname with the given segments, as the specification
  words them: the root, then each nested prefix up to the full pathname.\<close>

definition cumulativePrefixes :: "string list \<Rightarrow> string list" where
  "cumulativePrefixes segs =
     ''/'' # map (\<lambda>n. ''/'' @ joinWith ''/'' (take n segs)) [1..<Suc (length segs)]"

section \<open>Concrete requests and worlds\<close>

definition defaultConfig :: Config where
  "defaultConfig =
     \<lparr>messages_NOT_FOUND = None, messages_METHOD_NOT_ALLOWED = None,
      limits_middleware_timeout = None\<rparr>"

definition request :: "string \<Rightarrow> string \<Rightarrow> IntRequest" where
  "request m p =
     \<lparr>reqMethod = m, path = p, reqHeaders = [], query = [], params = Map.empty, custom = None\<rparr>"

definition okResponse :: "string \<Rightarrow> IntResponse" where
  "okResponse t = \<lparr>status = Some 200, body = Some (OtherBody t), headers = []\<rparr>"

text \<open>A handler that answers with \<open>okResponse t\<close>, and a route module that exports
  it under one name only.\<close>

definition answering :: "string \<Rightarrow> RequestHandler" where
  "answering t = (\<lambda>context. Resolved (Some (okResponse t)))"

definition exporting :: "string \<Rightarrow> 'h \<Rightarrow> string \<Rightarrow> 'h export" where
  "exporting name h = (\<lambda>n. if n = name then Function h else Undefined)"

text \<open>A project with nothing in it: no static folder, no identity, no middleware.\<close>

definition emptyWorld :: world where
  "emptyWorld =
     \<lparr>staticFolder = None, globStatic = (\<lambda>folder p. None), mimeLookup = (\<lambda>f. None),
      basePathCompiled = ''.intrest/routes'', cwdBasePath = ''/app/.intrest/routes'',
      identitiesModules = [], importRoute = (\<lambda>f. Inl (JsError ''Cannot find module'')),
      globMiddlewarePoints = [], importMiddleware = (\<lambda>f n. Undefined)\<rparr>"

text \<open>A static folder \<open>public\<close> holding \<open>logo.png\<close> and \<open>LICENSE\<close>, of which only the
  first has a content type, next to a route whose template is \<open>logo.png\<close>.\<close>

definition staticWorld :: world where
  "staticWorld =
     emptyWorld
       \<lparr>staticFolder := Some ''public'',
        globStatic := (\<lambda>folder p.
          if folder = ''public'' \<and> (p = ''logo.png'' \<or> p = ''LICENSE'')
          then Some (''public/'' @ p) else None),
        mimeLookup := (\<lambda>f. if f = ''public/logo.png'' then Some ''image/png'' else None),
        identitiesModules := [identityOf ''logo.png''],
        importRoute := (\<lambda>f. Inr (exporting ''GET'' (answering ''route'')))\<rparr>"

text \<open>Two contexts that differ at most in \<open>custom\<close>.\<close>

definition sameButCustom :: "IntRequest \<Rightarrow> IntRequest \<Rightarrow> bool" where
  "sameButCustom a b =
     (reqMethod a = reqMethod b \<and> path a = path b \<and> reqHeaders a = reqHeaders b
      \<and> query a = query b \<and> params a = params b)"

text \<open>
  Two routes, \<open>users/[id]\<close> found before \<open>users/me\<close>. The module of \<open>users/me\<close> exports
  a handler for \<open>GET\<close> only, that of \<open>users/[id]\<close> the wildcard \<open>ALL\<close> only.
\<close>

definition usersWorld :: world where
  "usersWorld =
     emptyWorld
       \<lparr>identitiesModules := [identityOf ''users/[id]'', identityOf ''users/me''],
        importRoute := (\<lambda>f.
          if f = ''.intrest/routes/users/me/route.mjs'' then Inr (exporting ''GET'' (answering ''me''))
          else if f = ''.intrest/routes/users/[id]/route.mjs'' then Inr (exporting ''ALL'' (answering ''id''))
          else Inl (JsError ''Cannot find module''))\<rparr>"

definition usersModules :: "AutoGeneratedVars \<Rightarrow> string \<Rightarrow> RequestHandler export" where
  "usersModules i =
     (if pathname i = ''users/me'' then exporting ''GET'' (answering ''me'')
      else exporting ''ALL'' (answering ''id''))"


text \<open>
  Three routes without middleware: the handler of \<open>boom\<close> throws an \<open>Error\<close>, that of
  \<open>teapot\<close> throws a response, and the route module of \<open>missing\<close> does not load.
\<close>

definition throwing :: "thrown \<Rightarrow> RequestHandler" where
  "throwing error = (\<lambda>context. Rejected error)"

definition teapot :: IntResponse where
  "teapot = \<lparr>status = Some 418, body = Some (OtherBody ''short and stout''), headers = []\<rparr>"

definition failingWorld :: world where
  "failingWorld =
     emptyWorld
       \<lparr>identitiesModules := [identityOf ''boom'', identityOf ''teapot'', identityOf ''missing''],
        importRoute := (\<lambda>f.
          if f = ''.intrest/routes/boom/route.mjs''
            then Inr (exporting ''GET'' (throwing (JsError ''boom'')))
          else if f = ''.intrest/routes/teapot/route.mjs''
            then Inr (exporting ''GET'' (throwing (JsObject teapot)))
          else Inl (JsError ''Cannot find module''))\<rparr>"

text \<open>
  A route \<open>/users/list\<close> under three middleware files, found in the order root,
  \<open>/users\<close>, \<open>/users/list\<close>. Each module exports its handler as \<open>middleware\<close> and as
  \<open>handler\<close>. The scripts of the first two are parameters; the third forwards.
\<close>

definition denied :: IntResponse where
  "denied = \<lparr>status = Some 403, body = Some (MessageBody ''denied''), headers = []\<rparr>"

definition guardWorld :: "mw_script \<Rightarrow> mw_script \<Rightarrow> world" where
  "guardWorld rootScript usersScript =
     emptyWorld
       \<lparr>identitiesModules := [identityOf ''/users/list''],
        importRoute := (\<lambda>f. Inr (exporting ''GET'' (answering ''list''))),
        globMiddlewarePoints :=
          [''/app/.intrest/routes/middleware.mjs'',
           ''/app/.intrest/routes/users/middleware.mjs'',
           ''/app/.intrest/routes/users/list/middleware.mjs''],
        importMiddleware := (\<lambda>f n.
          if n = ''middleware'' \<or> n = ''handler'' then
            Function (\<lambda>context.
              if f = ''app/.intrest/routes/middleware.mjs'' then rootScript
              else if f = ''app/.intrest/routes/users/middleware.mjs'' then usersScript
              else Invoke None Settle)
          else Undefined)\<rparr>"

definition guardModule :: "mw_script \<Rightarrow> mw_script \<Rightarrow> string \<Rightarrow> MiddlewareModule" where
  "guardModule rootScript usersScript f =
     \<lparr>handler = (\<lambda>context.
              if f = ''app/.intrest/routes/middleware.mjs'' then rootScript
              else if f = ''app/.intrest/routes/users/middleware.mjs'' then usersScript
              else Invoke None Settle),
      mwPathname = f\<rparr>"

definition denying :: mw_script where
  "denying = Settle (Resolved (Some denied))"




text \<open>A handler whose promise never settles, and one that returns nothing; neither
  invokes its continuation.\<close>

definition hanging :: mw_script where
  "hanging = Settle Pending"

definition silent :: mw_script where
  "silent = Settle (Resolved None)"


text \<open>
  A route \<open>/users\<close> and three middleware files, of the root, of \<open>/admin\<close> and of
  \<open>/users\<close>. Each module exports as \<open>middleware\<close> and as \<open>handler\<close> a handler that
  forwards.
\<close>

definition adminWorld :: world where
  "adminWorld =
     emptyWorld
       \<lparr>identitiesModules := [identityOf ''/users''],
        importRoute := (\<lambda>f. Inr (exporting ''GET'' (answering ''users''))),
        globMiddlewarePoints :=
          [''/app/.intrest/routes/middleware.mjs'',
           ''/app/.intrest/routes/admin/middleware.mjs'',
           ''/app/.intrest/routes/users/middleware.mjs''],
        importMiddleware := (\<lambda>f n.
          if n = ''middleware'' \<or> n = ''handler'' then Function (\<lambda>context. Invoke None Settle)
          else Undefined)\<rparr>"

text \<open>A request whose data carries a \<open>custom\<close>.\<close>

definition carrying :: IntRequest where
  "carrying = (request ''GET'' ''/users/list'')\<lparr>custom := Some [(''user'', JLeaf ''ann'')]\<rparr>"

definition forwarder :: "string \<Rightarrow> MiddlewareModule" where
  "forwarder f = \<lparr>handler = (\<lambda>context. Invoke None Settle), mwPathname = f\<rparr>"

section \<open>The comparator\<close>

lemma split_nonempty: "split sep s \<noteq> []"
  by (induction s) (auto split: list.splits)

text \<open>
  Between two templates with the same number of segments the comparator is the
  lexicographic order of three things: which segments are bracketed (a literal segment
  before a bracketed one), the declared route in lower case, and the length of the
  template, longer first. There it is antisymmetric and transitive.
\<close>

lemma segmentLoop_kinds:
  assumes "length a = length b"
  shows "segmentLoop a b i =
           (if drop i (kinds a) = drop i (kinds b) then None
            else if drop i (kinds a) < drop i (kinds b) then Some (- 1) else Some 1)"
  using assms
proof (induction a b i rule: segmentLoop.induct)
  case (1 aSlipt bSlipt i)
  show ?case
  proof (cases "i < length aSlipt")
    case False
    with "1.prems" show ?thesis
      by (subst segmentLoop.simps) (simp add: kinds_def)
  next
    case True
    with "1.prems" have ib: "i < length bSlipt" by simp
    have da: "drop i (kinds aSlipt) = startsBracket (aSlipt ! i) # drop (Suc i) (kinds aSlipt)"
      using True by (simp add: kinds_def Cons_nth_drop_Suc [symmetric])
    have db: "drop i (kinds bSlipt) = startsBracket (bSlipt ! i) # drop (Suc i) (kinds bSlipt)"
      using ib by (simp add: kinds_def Cons_nth_drop_Suc [symmetric])
    have at: "startsBracketAt bSlipt i = startsBracket (bSlipt ! i)"
      using ib by (simp add: startsBracketAt_def)
    show ?thesis
    proof (cases "startsBracket (aSlipt ! i)")
      case A: True
      show ?thesis
      proof (cases "startsBracket (bSlipt ! i)")
        case B: True
        have "segmentLoop aSlipt bSlipt i = segmentLoop aSlipt bSlipt (Suc i)"
          using True A B at by (subst segmentLoop.simps) simp
        with "1.IH"(1) [OF True] A B at "1.prems" show ?thesis
          by (simp add: da db)
      next
        case B: False
        have "segmentLoop aSlipt bSlipt i = Some 1"
          using True A B at by (subst segmentLoop.simps) simp
        with A B show ?thesis by (simp add: da db)
      qed
    next
      case A: False
      show ?thesis
      proof (cases "startsBracket (bSlipt ! i)")
        case B: True
        have "segmentLoop aSlipt bSlipt i = Some (- 1)"
          using True A B at by (subst segmentLoop.simps) simp
        with A B show ?thesis by (simp add: da db)
      next
        case B: False
        have "segmentLoop aSlipt bSlipt i = segmentLoop aSlipt bSlipt (Suc i)"
          using True A B at by (subst segmentLoop.simps) simp
        with "1.IH"(2) [OF True] A B at "1.prems" show ?thesis
          by (simp add: da db)
      qed
    qed
  qed
qed

lemma sortCompiledRoutes_same_count:
  assumes "sameSegmentCount a b"
  shows "sortCompiledRoutes a b =
     (let ka = kinds (split CHR ''/'' (pathname a)); kb = kinds (split CHR ''/'' (pathname b));
          ra = toLowerCase (route a); rb = toLowerCase (route b)
      in if ka < kb then - 1 else if kb < ka then 1
         else if ra < rb then - 1 else if rb < ra then 1
         else int (length (pathname b)) - int (length (pathname a)))"
  using segmentLoop_kinds [of "split CHR ''/'' (pathname a)" "split CHR ''/'' (pathname b)" 0] assms
  by (auto simp: sortCompiledRoutes_def sameSegmentCount_def Let_def)

lemma sortCompiledRoutes_antisymmetric_same_count:
  assumes "sameSegmentCount a b"
  shows "sgn (sortCompiledRoutes a b) = - sgn (sortCompiledRoutes b a)"
proof -
  from assms have "sameSegmentCount b a" by (simp add: sameSegmentCount_def)
  from sortCompiledRoutes_same_count [OF assms] sortCompiledRoutes_same_count [OF this]
  show ?thesis
    by (auto simp: Let_def sgn_if)
qed

lemma sortCompiledRoutes_transitive_same_count:
  assumes ab: "sameSegmentCount a b" and bc: "sameSegmentCount b c"
    and "sortCompiledRoutes a b \<le> 0" and "sortCompiledRoutes b c \<le> 0"
  shows "sortCompiledRoutes a c \<le> 0"
proof -
  from ab bc have ac: "sameSegmentCount a c" by (simp add: sameSegmentCount_def)
  let ?k = "\<lambda>x. kinds (split CHR ''/'' (pathname x))"
  let ?r = "\<lambda>x. toLowerCase (route x)"
  let ?n = "\<lambda>x. int (length (pathname x))"
  have le: "sortCompiledRoutes x y \<le> 0 \<longleftrightarrow>
      ?k x < ?k y \<or> (?k x = ?k y \<and> (?r x < ?r y \<or> (?r x = ?r y \<and> ?n y \<le> ?n x)))"
    if "sameSegmentCount x y" for x y
    using sortCompiledRoutes_same_count [OF that] by (auto simp: Let_def)
  from assms(3,4) show ?thesis
    unfolding le [OF ab] le [OF bc] le [OF ac]
    by (elim disjE conjE) (auto intro: less_trans)
qed

text \<open>
  C1. The comparator gives one outcome for every pair, but the preference it induces is
  not antisymmetric once the segment counts differ: the loop runs over the segments of
  its first argument only, so a dynamic segment of the second argument past that length
  is never seen. For the templates \<open>y\<close> and \<open>x/[id]\<close> each is placed after the other.
\<close>

theorem sortCompiledRoutes_not_antisymmetric:
  "sortCompiledRoutes (identityOf ''y'') (identityOf ''x/[id]'') = 1
   \<and> sortCompiledRoutes (identityOf ''x/[id]'') (identityOf ''y'') = 1"
  by code_simp

section \<open>The stages of tunnel\<close>

lemma tunnelWith_static:
  assumes "staticFolder w = Some folder" and "folder \<noteq> []"
    and "globFind w folder (path data) = Some file" and "file \<noteq> []"
    and "mimeLookup w file = Some mimeType" and "mimeType \<noteq> []"
  shows "tunnelWith pick getMws chain w config data =
     \<lparr>completion = Sent \<lparr>status = Some 200, body = Some (FileStream file),
                          headers = [(''Content-Type'', mimeType)]\<rparr>,
      selected = None,
      final = \<lparr>ctx = data\<lparr>params := Map.empty\<rparr>, events = [ServeStatic], timers = []\<rparr>\<rparr>"
  using assms by (simp add: tunnelWith_def staticFile_def truthy_def emit_def)

lemma tunnelWith_not_found:
  assumes "staticFile w (data\<lparr>params := Map.empty\<rparr>) = None"
    and "getIdentities w (path data) = []"
  shows "tunnelWith pick getMws chain w config data =
     \<lparr>completion = Sent (notFound config), selected = None,
      final = \<lparr>ctx = data\<lparr>params := Map.empty\<rparr>, events = [GetIdentities], timers = []\<rparr>\<rparr>"
  using assms by (simp add: tunnelWith_def emit_def)


lemma tunnelWith_no_handler:
  assumes "staticFile w (data\<lparr>params := Map.empty\<rparr>) = None"
    and "getIdentities w (path data) \<noteq> []"
    and "importRoutes w pick (reqMethod data) (getIdentities w (path data)) = Inr routes"
    and "findRoute routes = None"
  shows "completion (tunnelWith pick getMws chain w config data) = Sent (methodNotAllowed config)"
    and "selected (tunnelWith pick getMws chain w config data) = None"
    and "events (final (tunnelWith pick getMws chain w config data)) =
           GetIdentities # map (\<lambda>i. ImportRoute (pathname i)) (getIdentities w (path data))"
  using assms by (simp_all add: tunnelWith_def Let_def emit_def)

text \<open>The state in which the chain starts once the route is chosen.\<close>

definition chainStart :: "world \<Rightarrow> IntRequest \<Rightarrow> AutoGeneratedVars \<Rightarrow> chainState" where
  "chainStart w data identity =
     \<lparr>ctx = data\<lparr>params := extractParams identity (path data)\<rparr>,
      events = GetIdentities # map (\<lambda>i. ImportRoute (pathname i)) (getIdentities w (path data))
                 @ [GetMiddlewares],
      timers = []\<rparr>"

lemma tunnelWith_chain:
  assumes "staticFile w (data\<lparr>params := Map.empty\<rparr>) = None"
    and "getIdentities w (path data) \<noteq> []"
    and "importRoutes w pick (reqMethod data) (getIdentities w (path data)) = Inr routes"
    and "findRoute routes = Some (h, identity)"
    and "chain (getMws w (pathname identity)) config h (chainStart w data identity) = (r, s)"
  shows "tunnelWith pick getMws chain w config data =
     \<lparr>completion = respond r, selected = Some identity, final = s\<rparr>"
  using assms by (simp add: tunnelWith_def Let_def emit_def chainStart_def)

section \<open>The static asset comes first\<close>

text \<open>
  C7, as stated, fails: a file of the static folder for which \<open>lookup\<close> knows no content
  type is not served. The request goes on to route matching, where here nothing matches.
\<close>

theorem static_asset_without_type_reaches_routing:
  "globFind staticWorld ''public'' (path (request ''GET'' ''LICENSE'')) = Some ''public/LICENSE''
   \<and> tunnel staticWorld defaultConfig (request ''GET'' ''LICENSE'') =
       \<lparr>completion = Sent (notFound defaultConfig), selected = None,
        final = \<lparr>ctx = request ''GET'' ''LICENSE'', events = [GetIdentities], timers = []\<rparr>\<rparr>"
proof -
  have g: "globFind staticWorld ''public'' ''LICENSE'' = Some ''public/LICENSE''"
    by (simp add: staticWorld_def emptyWorld_def globFind_def normalizePath_def isSlash_def)
  have m: "mimeLookup staticWorld ''public/LICENSE'' = None"
    by (simp add: staticWorld_def emptyWorld_def)
  have f: "staticFolder staticWorld = Some ''public''"
    by (simp add: staticWorld_def emptyWorld_def)
  have st: "staticFile staticWorld ((request ''GET'' ''LICENSE'')\<lparr>params := Map.empty\<rparr>) = None"
    using g m f by (simp add: staticFile_def request_def truthy_def)
  have "paramExtract (identityOf ''logo.png'') ''LICENSE'' = None"
    by (simp add: identityOf_def templatePattern_def startsBracket_def)
  then have ids: "getIdentities staticWorld (path (request ''GET'' ''LICENSE'')) = []"
    by (simp add: getIdentities_def staticWorld_def emptyWorld_def request_def sortArray_def)
  have "(request ''GET'' ''LICENSE'')\<lparr>params := Map.empty\<rparr> = request ''GET'' ''LICENSE''"
    by (simp add: request_def)
  with tunnelWith_not_found [OF st ids] g show ?thesis
    by (simp add: tunnel_def request_def)
qed

text \<open>
  C7, amended: when the request path finds a file in the static folder and \<open>lookup\<close>
  gives that file a content type, both versions of \<open>tunnel\<close> send the file with status
  200 and that content type, and nothing else happens: no identity is matched, no route
  or middleware is loaded, no handler is called, whatever routes exist.
\<close>

theorem static_asset_served_first:
  assumes "staticFolder w = Some folder" and "folder \<noteq> []"
    and "globFind w folder (path data) = Some file" and "file \<noteq> []"
    and "mimeLookup w file = Some mimeType" and "mimeType \<noteq> []"
  shows "tunnel w config data =
     \<lparr>completion = Sent \<lparr>status = Some 200, body = Some (FileStream file),
                          headers = [(''Content-Type'', mimeType)]\<rparr>,
      selected = None,
      final = \<lparr>ctx = data\<lparr>params := Map.empty\<rparr>, events = [ServeStatic], timers = []\<rparr>\<rparr>
    \<and> tunnel_p0 w config data = tunnel w config data"
  using assms by (simp add: tunnel_def tunnel_p0_def tunnelWith_static)

theorem static_asset_served_first_witness:
  "events (final (tunnel staticWorld defaultConfig (request ''GET'' ''logo.png''))) = [ServeStatic]
   \<and> completion (tunnel_p0 staticWorld defaultConfig (request ''GET'' ''logo.png''))
       = Sent \<lparr>status = Some 200, body = Some (FileStream ''public/logo.png''),
                headers = [(''Content-Type'', ''image/png'')]\<rparr>
   \<and> paramExtract (hd (identitiesModules staticWorld)) ''logo.png'' \<noteq> None"
proof -
  have g: "globFind staticWorld ''public'' (path (request ''GET'' ''logo.png'')) = Some ''public/logo.png''"
    by (simp add: staticWorld_def emptyWorld_def request_def globFind_def normalizePath_def isSlash_def)
  have m: "mimeLookup staticWorld ''public/logo.png'' = Some ''image/png''"
    by (simp add: staticWorld_def emptyWorld_def)
  have f: "staticFolder staticWorld = Some ''public''"
    by (simp add: staticWorld_def emptyWorld_def)
  have r: "paramExtract (hd (identitiesModules staticWorld)) ''logo.png'' \<noteq> None"
    by (simp add: staticWorld_def emptyWorld_def identityOf_def templatePattern_def startsBracket_def)
  from static_asset_served_first [OF f _ g _ m, of defaultConfig] r show ?thesis
    by simp
qed

section \<open>The context through the chain\<close>

lemma sameButCustom_refl [simp]: "sameButCustom a a"
  by (simp add: sameButCustom_def)

lemma sameButCustom_trans: "sameButCustom a b \<Longrightarrow> sameButCustom b c \<Longrightarrow> sameButCustom a c"
  by (simp add: sameButCustom_def)

lemma mergeCustom_frame [simp]: "sameButCustom (mergeCustom c x) x"
  by (simp add: sameButCustom_def mergeCustom_def)

lemma runScript_p0_frame: "sameButCustom (fst (snd (runScript_p0 sc x r))) x"
proof (induction sc arbitrary: x r)
  case (Settle y)
  then show ?case by simp
next
  case (Invoke c k)
  have "sameButCustom (fst (snd (runScript_p0 (k (Resolved None)) (mergeCustom c x) True))) (mergeCustom c x)"
    by (rule Invoke.IH) simp
  then show ?case
    by simp (metis sameButCustom_trans mergeCustom_frame)
qed

lemma middlewareStep_p0_frame: "sameButCustom (ctx (snd (middlewareStep_p0 m config s))) (ctx s)"
  using runScript_p0_frame [of "handler m (ctx s)" "ctx s" False]
  by (auto simp: middlewareStep_p0_def split: prod.splits awaited.splits)

lemma emit_ctx [simp]: "ctx (emit e s) = ctx s"
  by (simp add: emit_def)

lemma middlewareLoop_p0_frame: "sameButCustom (ctx (snd (middlewareLoop_p0 ms config s))) (ctx s)"
proof (induction ms arbitrary: s)
  case Nil
  then show ?case by simp
next
  case (Cons m ms)
  let ?s1 = "emit (CallMiddleware (mwPathname m)) s"
  have a: "sameButCustom (ctx (snd (middlewareStep_p0 m config ?s1))) (ctx s)"
    using middlewareStep_p0_frame [of m config ?s1] by simp
  show ?case
  proof (cases "middlewareStep_p0 m config ?s1")
    case (Pair r s')
    with a have b: "sameButCustom (ctx s') (ctx s)" by simp
    show ?thesis
    proof (cases "r = Resolved None")
      case True
      with Pair have "middlewareLoop_p0 (m # ms) config s = middlewareLoop_p0 ms config s'" by simp
      with Cons.IH [of s'] b show ?thesis by (auto intro: sameButCustom_trans)
    next
      case False
      with Pair have "middlewareLoop_p0 (m # ms) config s = (r, s')"
        by (auto split: awaited.splits option.splits)
      with b show ?thesis by simp
    qed
  qed
qed

lemma chain_p0_frame: "sameButCustom (ctx (snd (chain_p0 ms config h s))) (ctx s)"
  using middlewareLoop_p0_frame [of ms config s]
  by (auto simp: chain_p0_def split: prod.splits awaited.splits option.splits)

lemma runScript_frame:
  assumes "\<And>c s. sameButCustom (ctx (snd (next c s))) (ctx s)"
  shows "sameButCustom (ctx (fst (snd (runScript sc next s)))) (ctx s)"
proof (induction sc arbitrary: s)
  case (Settle y)
  then show ?case by simp
next
  case (Invoke c k)
  obtain d s' where n: "next c s = (d, s')" by (cases "next c s")
  have a: "sameButCustom (ctx s') (ctx s)" using assms [of c s] n by simp
  have "sameButCustom (ctx (fst (snd (runScript (k d) next s')))) (ctx s')"
    by (rule Invoke.IH) simp
  with a n show ?case
    by (auto split: prod.splits intro: sameButCustom_trans)
qed

lemma callRecursiveMiddlewares_frame:
  "sameButCustom (ctx (snd (callRecursiveMiddlewares ms config h s))) (ctx s)"
proof (induction ms arbitrary: s)
  case Nil
  then show ?case by simp
next
  case (Cons m ms)
  let ?next = "\<lambda>c s'. callRecursiveMiddlewares ms config h (s'\<lparr>ctx := mergeCustom c (ctx s')\<rparr>)"
  have nx: "\<And>c s. sameButCustom (ctx (snd (?next c s))) (ctx s)"
  proof -
    fix c s
    have "sameButCustom (ctx (snd (?next c s))) (mergeCustom c (ctx s))"
      using Cons.IH [of "s\<lparr>ctx := mergeCustom c (ctx s)\<rparr>"] by simp
    then show "sameButCustom (ctx (snd (?next c s))) (ctx s)"
      by (rule sameButCustom_trans) simp
  qed
  have "sameButCustom (ctx (fst (snd (runScript (handler m (ctx s)) ?next (emit (CallMiddleware (mwPathname m)) s)))))
          (ctx (emit (CallMiddleware (mwPathname m)) s))"
    by (rule runScript_frame) (rule nx)
  then show ?case
    by (auto split: prod.splits)
qed

section \<open>Handler resolution\<close>

lemma importRoutes_loaded:
  "list_all (\<lambda>i. importRoute w (routeFile w i) = Inr (M i)) ms \<Longrightarrow>
   importRoutes w pick m ms = Inr (map (\<lambda>i. (pick (M i) m, i)) ms)"
  by (induction ms) (auto simp: routeFile_def)

lemma routeHandler_usable:
  "functionsOnly routeModule m \<Longrightarrow> functionOf (routeHandler routeModule m) = usable routeModule m"
  by (cases "routeModule m"; cases "routeModule ''ALL''"; cases "routeModule ''default''")
     (auto simp: functionsOnly_def routeHandler_def usable_def)

lemma findRoute_map:
  "findRoute (map (\<lambda>i. (pick (M i) m, i)) ms) = firstUsable (\<lambda>i m. functionOf (pick (M i) m)) m ms"
proof (induction ms)
  case Nil
  then show ?case by simp
next
  case (Cons i ms)
  then show ?case by (cases "pick (M i) m") auto
qed

lemma firstUsable_cong:
  "list_all (\<lambda>i. f i m = g i m) ms \<Longrightarrow> firstUsable f m ms = firstUsable g m ms"
  by (induction ms) (auto split: option.splits)

lemma resolve_new:
  assumes "list_all (loaded w M m) ms"
  shows "importRoutes w routeHandler m ms = Inr (map (\<lambda>i. (routeHandler (M i) m, i)) ms)"
    and "findRoute (map (\<lambda>i. (routeHandler (M i) m, i)) ms) = firstUsable (\<lambda>i. usable (M i)) m ms"
proof -
  from assms have a: "list_all (\<lambda>i. importRoute w (routeFile w i) = Inr (M i)) ms"
    by (simp add: list_all_iff loaded_def)
  then show "importRoutes w routeHandler m ms = Inr (map (\<lambda>i. (routeHandler (M i) m, i)) ms)"
    by (rule importRoutes_loaded)
  from assms have "list_all (\<lambda>i. functionOf (routeHandler (M i) m) = usable (M i) m) ms"
    by (simp add: list_all_iff loaded_def routeHandler_usable)
  then have "firstUsable (\<lambda>i m. functionOf (routeHandler (M i) m)) m ms = firstUsable (\<lambda>i. usable (M i)) m ms"
    by (rule firstUsable_cong)
  then show "findRoute (map (\<lambda>i. (routeHandler (M i) m, i)) ms) = firstUsable (\<lambda>i. usable (M i)) m ms"
    by (simp add: findRoute_map)
qed

lemma resolve_p0:
  assumes "list_all (loaded w M m) ms"
  shows "importRoutes w routeHandler_p0 m ms = Inr (map (\<lambda>i. (routeHandler_p0 (M i) m, i)) ms)"
    and "findRoute (map (\<lambda>i. (routeHandler_p0 (M i) m, i)) ms) = firstUsable (\<lambda>i m. functionOf (M i m)) m ms"
proof -
  from assms have a: "list_all (\<lambda>i. importRoute w (routeFile w i) = Inr (M i)) ms"
    by (simp add: list_all_iff loaded_def)
  then show "importRoutes w routeHandler_p0 m ms = Inr (map (\<lambda>i. (routeHandler_p0 (M i) m, i)) ms)"
    by (rule importRoutes_loaded)
  show "findRoute (map (\<lambda>i. (routeHandler_p0 (M i) m, i)) ms) = firstUsable (\<lambda>i m. functionOf (M i m)) m ms"
    using findRoute_map [of routeHandler_p0 M m ms] by (simp add: routeHandler_p0_def)
qed

lemma tunnelWith_resolution:
  assumes st: "staticFile w (data\<lparr>params := Map.empty\<rparr>) = None"
    and ne: "getIdentities w (path data) \<noteq> []"
    and im: "importRoutes w pick (reqMethod data) (getIdentities w (path data)) = Inr routes"
  shows "(case findRoute routes of
            Some (h, i) \<Rightarrow>
              tunnelWith pick getMws chain w config data =
                \<lparr>completion = respond (fst (chain (getMws w (pathname i)) config h (chainStart w data i))),
                 selected = Some i,
                 final = snd (chain (getMws w (pathname i)) config h (chainStart w data i))\<rparr>
          | None \<Rightarrow>
              completion (tunnelWith pick getMws chain w config data) = Sent (methodNotAllowed config)
              \<and> selected (tunnelWith pick getMws chain w config data) = None
              \<and> events (final (tunnelWith pick getMws chain w config data)) =
                  GetIdentities # map (\<lambda>i. ImportRoute (pathname i)) (getIdentities w (path data)))"
proof (cases "findRoute routes")
  case None
  with tunnelWith_no_handler [OF st ne im None] show ?thesis by simp
next
  case (Some a)
  obtain h i where a: "a = (h, i)" by (cases a)
  have "chain (getMws w (pathname i)) config h (chainStart w data i) =
      (fst (chain (getMws w (pathname i)) config h (chainStart w data i)),
       snd (chain (getMws w (pathname i)) config h (chainStart w data i)))"
    by simp
  from tunnelWith_chain [where chain = chain and getMws = getMws, OF st ne im _ this] Some a show ?thesis by simp
qed

text \<open>
  C3, amended. When no static file is served, some identity matches and the route modules
  of the matches load: \<open>tunnel\<close> of \<open>src/@types/internal.d.ts\<close> scans the matches in the
  order of \<open>getIdentities\<close>, takes of each the handler bound to the method, else the
  wildcard \<open>ALL\<close>, else the default, and runs the chain of the first match that has one;
  \<open>tunnel\<close> of \<open>unnamed/part_000\<close> does the same with the handler bound to the method
  alone. When no match has a handler, both send the 405 response with the configured
  message, and nothing else is called.
\<close>

theorem handler_resolution:
  assumes st: "staticFile w (data\<lparr>params := Map.empty\<rparr>) = None"
    and ne: "getIdentities w (path data) \<noteq> []"
    and ld: "list_all (loaded w M (reqMethod data)) (getIdentities w (path data))"
  shows "(case firstUsable (\<lambda>i. usable (M i)) (reqMethod data) (getIdentities w (path data)) of
            Some (h, i) \<Rightarrow>
              tunnel w config data =
                \<lparr>completion = respond (fst (callRecursiveMiddlewares (getMiddlewares w (pathname i))
                                config h (chainStart w data i))),
                 selected = Some i,
                 final = snd (callRecursiveMiddlewares (getMiddlewares w (pathname i))
                                config h (chainStart w data i))\<rparr>
          | None \<Rightarrow>
              completion (tunnel w config data) = Sent (methodNotAllowed config)
              \<and> selected (tunnel w config data) = None
              \<and> events (final (tunnel w config data)) =
                  GetIdentities # map (\<lambda>i. ImportRoute (pathname i)) (getIdentities w (path data)))
       \<and> (case firstUsable (\<lambda>i m. functionOf (M i m)) (reqMethod data) (getIdentities w (path data)) of
            Some (h, i) \<Rightarrow>
              tunnel_p0 w config data =
                \<lparr>completion = respond (fst (chain_p0 (getMiddlewares_p0 w (pathname i))
                                config h (chainStart w data i))),
                 selected = Some i,
                 final = snd (chain_p0 (getMiddlewares_p0 w (pathname i))
                                config h (chainStart w data i))\<rparr>
          | None \<Rightarrow>
              completion (tunnel_p0 w config data) = Sent (methodNotAllowed config)
              \<and> selected (tunnel_p0 w config data) = None
              \<and> events (final (tunnel_p0 w config data)) =
                  GetIdentities # map (\<lambda>i. ImportRoute (pathname i)) (getIdentities w (path data)))
       \<and> methodNotAllowed config =
            \<lparr>status = Some 405,
             body = Some (MessageBody (strOr (messages_METHOD_NOT_ALLOWED config) ''Method not allowed'')),
             headers = [(''Content-Type'', ''application/json'')]\<rparr>"
proof -
  have a: "methodNotAllowed config =
            \<lparr>status = Some 405,
             body = Some (MessageBody (strOr (messages_METHOD_NOT_ALLOWED config) ''Method not allowed'')),
             headers = [(''Content-Type'', ''application/json'')]\<rparr>"
    by (simp add: methodNotAllowed_def)
  have n: "(case firstUsable (\<lambda>i. usable (M i)) (reqMethod data) (getIdentities w (path data)) of
            Some (h, i) \<Rightarrow>
              tunnel w config data =
                \<lparr>completion = respond (fst (callRecursiveMiddlewares (getMiddlewares w (pathname i))
                                config h (chainStart w data i))),
                 selected = Some i,
                 final = snd (callRecursiveMiddlewares (getMiddlewares w (pathname i))
                                config h (chainStart w data i))\<rparr>
          | None \<Rightarrow>
              completion (tunnel w config data) = Sent (methodNotAllowed config)
              \<and> selected (tunnel w config data) = None
              \<and> events (final (tunnel w config data)) =
                  GetIdentities # map (\<lambda>i. ImportRoute (pathname i)) (getIdentities w (path data)))"
    unfolding tunnel_def resolve_new(2) [OF ld, symmetric]
    by (rule tunnelWith_resolution [OF st ne resolve_new(1) [OF ld]])
  have o: "(case firstUsable (\<lambda>i m. functionOf (M i m)) (reqMethod data) (getIdentities w (path data)) of
            Some (h, i) \<Rightarrow>
              tunnel_p0 w config data =
                \<lparr>completion = respond (fst (chain_p0 (getMiddlewares_p0 w (pathname i))
                                config h (chainStart w data i))),
                 selected = Some i,
                 final = snd (chain_p0 (getMiddlewares_p0 w (pathname i))
                                config h (chainStart w data i))\<rparr>
          | None \<Rightarrow>
              completion (tunnel_p0 w config data) = Sent (methodNotAllowed config)
              \<and> selected (tunnel_p0 w config data) = None
              \<and> events (final (tunnel_p0 w config data)) =
                  GetIdentities # map (\<lambda>i. ImportRoute (pathname i)) (getIdentities w (path data)))"
    unfolding tunnel_p0_def resolve_p0(2) [OF ld, symmetric]
    by (rule tunnelWith_resolution [OF st ne resolve_p0(1) [OF ld]])
  from n o a show ?thesis by (intro conjI)
qed

lemma users_me: "paramExtract (identityOf ''users/me'') ''users/me'' \<noteq> None"
  by (simp add: identityOf_def templatePattern_def startsBracket_def)

lemma users_id: "paramExtract (identityOf ''users/[id]'') ''users/me'' \<noteq> None"
  by (simp add: identityOf_def templatePattern_def startsBracket_def)

lemma users_order:
  "sortCompiledRoutes (identityOf ''users/[id]'') (identityOf ''users/me'') = 1"
  by code_simp

lemma users_identities:
  "getIdentities usersWorld ''users/me'' = [identityOf ''users/me'', identityOf ''users/[id]'']"
  using users_me users_id users_order
  by (simp add: getIdentities_def usersWorld_def emptyWorld_def sortArray_def)

lemma users_file_me:
  "routeFile usersWorld (identityOf ''users/me'') = ''.intrest/routes/users/me/route.mjs''"
  by code_simp

lemma users_file_id:
  "routeFile usersWorld (identityOf ''users/[id]'') = ''.intrest/routes/users/[id]/route.mjs''"
  by code_simp

lemmas users_files = users_file_me users_file_id

lemma users_loaded:
  "list_all (loaded usersWorld usersModules m) [identityOf ''users/me'', identityOf ''users/[id]'']"
  by (simp add: loaded_def users_files)
     (simp add: usersWorld_def emptyWorld_def usersModules_def identityOf_def functionsOnly_def exporting_def)


lemma users_static: "staticFile usersWorld d = None"
  by (simp add: staticFile_def usersWorld_def emptyWorld_def)

theorem handler_resolution_witness:
  "getIdentities usersWorld ''users/me'' = [identityOf ''users/me'', identityOf ''users/[id]'']
   \<and> selected (tunnel usersWorld defaultConfig (request ''PATCH'' ''users/me''))
       = Some (identityOf ''users/[id]'')
   \<and> completion (tunnel_p0 usersWorld defaultConfig (request ''PATCH'' ''users/me''))
       = Sent (methodNotAllowed defaultConfig)"
proof -
  let ?d = "request ''PATCH'' ''users/me''"
  have p: "path ?d = ''users/me''" and m: "reqMethod ?d = ''PATCH''"
    by (simp_all add: request_def)
  have ne: "getIdentities usersWorld (path ?d) \<noteq> []"
    by (simp add: p users_identities)
  have ld: "list_all (loaded usersWorld usersModules (reqMethod ?d)) (getIdentities usersWorld (path ?d))"
    by (simp only: p users_identities users_loaded)
  have a: "firstUsable (\<lambda>i. usable (usersModules i)) ''PATCH'' [identityOf ''users/me'', identityOf ''users/[id]'']
      = Some (answering ''id'', identityOf ''users/[id]'')"
    by (simp add: usable_def usersModules_def identityOf_def exporting_def)
  have b: "firstUsable (\<lambda>i m. functionOf (usersModules i m)) ''PATCH'' [identityOf ''users/me'', identityOf ''users/[id]'']
      = None"
    by (simp add: usersModules_def identityOf_def exporting_def)
  note r = handler_resolution [OF users_static ne ld, of defaultConfig, unfolded p m users_identities a b]
  from r users_identities show ?thesis
    by simp
qed

lemma users_42: "getIdentities usersWorld ''users/42'' = [identityOf ''users/[id]'']"
proof -
  have "paramExtract (identityOf ''users/me'') ''users/42'' = None"
    by (simp add: identityOf_def templatePattern_def startsBracket_def)
  moreover have "paramExtract (identityOf ''users/[id]'') ''users/42'' \<noteq> None"
    by (simp add: identityOf_def templatePattern_def startsBracket_def)
  ultimately show ?thesis
    by (simp add: getIdentities_def usersWorld_def emptyWorld_def sortArray_def)
qed

text \<open>
  C3, as stated, fails for \<open>tunnel\<close> of \<open>unnamed/part_000\<close>, which has no fallback: the
  only match for \<open>GET users/42\<close> exports the wildcard handler \<open>ALL\<close>, and the answer is
  405.
\<close>

theorem no_wildcard_fallback_in_part_000:
  "getIdentities usersWorld ''users/42'' = [identityOf ''users/[id]'']
   \<and> importRoute usersWorld (routeFile usersWorld (identityOf ''users/[id]''))
       = Inr (exporting ''ALL'' (answering ''id''))
   \<and> usable (exporting ''ALL'' (answering ''id'')) ''GET'' = Some (answering ''id'')
   \<and> completion (tunnel_p0 usersWorld defaultConfig (request ''GET'' ''users/42''))
       = Sent (methodNotAllowed defaultConfig)"
proof -
  let ?d = "request ''GET'' ''users/42''"
  have p: "path ?d = ''users/42''" and m: "reqMethod ?d = ''GET''"
    by (simp_all add: request_def)
  have i: "importRoute usersWorld (routeFile usersWorld (identityOf ''users/[id]''))
       = Inr (exporting ''ALL'' (answering ''id''))"
    by (simp add: users_files) (simp add: usersWorld_def emptyWorld_def)
  have u: "usable (exporting ''ALL'' (answering ''id'')) ''GET'' = Some (answering ''id'')"
    by (simp add: usable_def exporting_def)
  have ne: "getIdentities usersWorld (path ?d) \<noteq> []"
    by (simp add: p users_42)
  have im: "importRoutes usersWorld routeHandler_p0 (reqMethod ?d) (getIdentities usersWorld (path ?d))
      = Inr [(Undefined, identityOf ''users/[id]'')]"
    by (simp add: p m users_42 i routeHandler_p0_def exporting_def)
  from tunnelWith_no_handler(1) [OF users_static ne im, of getMiddlewares_p0 chain_p0 defaultConfig]
  have "completion (tunnel_p0 usersWorld defaultConfig ?d) = Sent (methodNotAllowed defaultConfig)"
    by (simp add: tunnel_p0_def)
  with users_42 i u show ?thesis by simp
qed

section \<open>The catch of tunnel\<close>




lemma failing_no_middlewares:
  "getMiddlewares failingWorld p = []" "getMiddlewares_p0 failingWorld p = []"
  by (simp_all add: getMiddlewares_def getMiddlewares_p0_def failingWorld_def emptyWorld_def
      globFindAll_def Let_def)






section \<open>A literal template before a dynamic one\<close>




lemma joinWith_Cons: "ss \<noteq> [] \<Longrightarrow> joinWith sep (x # ss) = x @ sep @ joinWith sep ss"
  by (cases ss) simp_all






lemma set_insertSorted [simp]: "set (insertSorted cmp x ys) = insert x (set ys)"
  by (induction ys) auto


lemma insertSorted_nonempty [simp]: "insertSorted cmp x ys \<noteq> []"
  by (cases ys) auto







lemma chainStart_params [simp]: "params (ctx (chainStart w data i)) = extractParams i (path data)"
  by (simp add: chainStart_def)





section \<open>Short circuit\<close>

lemma middlewareStep_p0_events [simp]:
  "events (snd (middlewareStep_p0 m config s)) = events s"
  "timers (snd (middlewareStep_p0 m config s)) = timers s"
  by (auto simp: middlewareStep_p0_def split: prod.splits awaited.splits)




lemma callRecursiveMiddlewares_forwards:
  assumes "forwards m"
  shows "\<exists>c. callRecursiveMiddlewares (m # rest) config h s =
           callRecursiveMiddlewares rest config h
             ((emit (CallMiddleware (mwPathname m)) s)\<lparr>ctx := mergeCustom c (ctx s)\<rparr>)"
proof -
  from assms obtain c where c: "handler m (ctx s) = Invoke c Settle"
    by (auto simp: forwards_def)
  show ?thesis
    by (rule exI [of _ c]) (simp add: c split: prod.splits)
qed



lemma guard_files:
  "globFindAll [''/app/.intrest/routes/middleware.mjs'',
           ''/app/.intrest/routes/users/middleware.mjs'',
           ''/app/.intrest/routes/users/list/middleware.mjs'']
   = [''app/.intrest/routes/middleware.mjs'',
      ''app/.intrest/routes/users/middleware.mjs'',
      ''app/.intrest/routes/users/list/middleware.mjs'']"
  by code_simp

lemma guard_pathnames: "pathnamesOf ''/users/list'' = [''/'', ''/users'', ''/users/list'']"
  by code_simp

lemma guard_candidate_root:
  "normalizePath (posixJoin [''/app/.intrest/routes'', ''/'', ''middleware.mjs''])
     = ''app/.intrest/routes/middleware.mjs''"
  by code_simp

lemma guard_candidate_users:
  "normalizePath (posixJoin [''/app/.intrest/routes'', ''/users'', ''middleware.mjs''])
     = ''app/.intrest/routes/users/middleware.mjs''"
  by code_simp

lemma guard_candidate_list:
  "normalizePath (posixJoin [''/app/.intrest/routes'', ''/users/list'', ''middleware.mjs''])
     = ''app/.intrest/routes/users/list/middleware.mjs''"
  by code_simp

lemmas guard_candidates = guard_candidate_root guard_candidate_users guard_candidate_list

lemma guard_anchor:
  "replaceFirst ''/app/.intrest/routes'' [] ''app/.intrest/routes/middleware.mjs''
     = ''app/.intrest/routes/middleware.mjs''"
  "replaceFirst ''/app/.intrest/routes'' [] ''app/.intrest/routes/users/middleware.mjs''
     = ''app/.intrest/routes/users/middleware.mjs''"
  "replaceFirst ''/app/.intrest/routes'' [] ''app/.intrest/routes/users/list/middleware.mjs''
     = ''app/.intrest/routes/users/list/middleware.mjs''"
  by code_simp+

lemma guard_includes:
  "includesStr ''app/.intrest/routes/middleware.mjs'' ''/''"
  "includesStr ''app/.intrest/routes/users/middleware.mjs'' ''/''"
  "includesStr ''app/.intrest/routes/users/list/middleware.mjs'' ''/''"
  by code_simp+

lemma guard_middlewares:
  "getMiddlewares (guardWorld rs us) ''/users/list'' =
     map (guardModule rs us)
       [''app/.intrest/routes/middleware.mjs'',
        ''app/.intrest/routes/users/middleware.mjs'',
        ''app/.intrest/routes/users/list/middleware.mjs'']"
  unfolding getMiddlewares_def Let_def
  by (simp add: guardWorld_def emptyWorld_def guard_files guard_pathnames guard_candidates
      guard_anchor guardModule_def del: replaceFirst.simps)

lemma guard_middlewares_p0:
  "getMiddlewares_p0 (guardWorld rs us) ''/users/list'' =
     map (guardModule rs us)
       [''app/.intrest/routes/middleware.mjs'',
        ''app/.intrest/routes/users/middleware.mjs'',
        ''app/.intrest/routes/users/list/middleware.mjs'']"
  unfolding getMiddlewares_p0_def Let_def
  by (simp add: guardWorld_def emptyWorld_def guard_files guard_pathnames guard_includes
      guard_anchor guardModule_def del: replaceFirst.simps includesStr.simps)

lemma chainStart_events:
  "events (chainStart w data i) =
     GetIdentities # map (\<lambda>i. ImportRoute (pathname i)) (getIdentities w (path data)) @ [GetMiddlewares]"
  by (simp add: chainStart_def)



lemma guard_static: "staticFile (guardWorld rs us) d = None"
  by (simp add: staticFile_def guardWorld_def emptyWorld_def)

lemma guard_identities: "getIdentities (guardWorld rs us) ''/users/list'' = [identityOf ''/users/list'']"
proof -
  have "paramExtract (identityOf ''/users/list'') ''/users/list'' \<noteq> None"
    by (simp add: identityOf_def templatePattern_def startsBracket_def)
  then show ?thesis
    by (simp add: getIdentities_def guardWorld_def emptyWorld_def sortArray_def)
qed

lemma guard_imports:
  "importRoutes (guardWorld rs us) pick m [identityOf ''/users/list'']
     = Inr [(pick (exporting ''GET'' (answering ''list'')) m, identityOf ''/users/list'')]"
  by (simp add: guardWorld_def emptyWorld_def)

lemma guard_route:
  "findRoute [(routeHandler (exporting ''GET'' (answering ''list'')) ''GET'', identityOf ''/users/list'')]
     = Some (answering ''list'', identityOf ''/users/list'')"
  "findRoute [(routeHandler_p0 (exporting ''GET'' (answering ''list'')) ''GET'', identityOf ''/users/list'')]
     = Some (answering ''list'', identityOf ''/users/list'')"
  by (simp_all add: routeHandler_def routeHandler_p0_def exporting_def)

lemma guard_request:
  "path (request ''GET'' ''/users/list'') = ''/users/list''"
  "reqMethod (request ''GET'' ''/users/list'') = ''GET''"
  "pathname (identityOf ''/users/list'') = ''/users/list''"
  by (simp_all add: request_def identityOf_def)




lemma guard_tunnel:
  "tunnel (guardWorld rs us) defaultConfig (request ''GET'' ''/users/list'') =
     \<lparr>completion = respond (fst (callRecursiveMiddlewares
          (getMiddlewares (guardWorld rs us) ''/users/list'') defaultConfig (answering ''list'')
          (chainStart (guardWorld rs us) (request ''GET'' ''/users/list'') (identityOf ''/users/list'')))),
      selected = Some (identityOf ''/users/list''),
      final = snd (callRecursiveMiddlewares
          (getMiddlewares (guardWorld rs us) ''/users/list'') defaultConfig (answering ''list'')
          (chainStart (guardWorld rs us) (request ''GET'' ''/users/list'') (identityOf ''/users/list'')))\<rparr>"
proof -
  have ne: "getIdentities (guardWorld rs us) (path (request ''GET'' ''/users/list'')) \<noteq> []"
    by (simp add: guard_request guard_identities)
  have im: "importRoutes (guardWorld rs us) routeHandler (reqMethod (request ''GET'' ''/users/list''))
      (getIdentities (guardWorld rs us) (path (request ''GET'' ''/users/list'')))
      = Inr [(routeHandler (exporting ''GET'' (answering ''list'')) ''GET'', identityOf ''/users/list'')]"
    by (simp only: guard_request guard_identities guard_imports)
  from tunnelWith_resolution [OF guard_static ne im, of getMiddlewares callRecursiveMiddlewares defaultConfig]
  show ?thesis
    by (simp add: guard_route guard_request tunnel_def)
qed


section \<open>Parameters, there and back\<close>

lemma split_no_sep: "s \<in> set (split sep x) \<Longrightarrow> sep \<notin> set s"
proof (induction x arbitrary: s)
  case Nil
  then show ?case by simp
next
  case (Cons c x)
  obtain s0 ss where r: "split sep x = s0 # ss"
    using split_nonempty [of sep x] by (cases "split sep x") auto
  with Cons show ?case
    by (auto split: if_splits)
qed

lemma split_append_no_sep:
  "sep \<notin> set s \<Longrightarrow> split sep (s @ sep # x) = s # split sep x"
  by (induction s) auto

lemma split_no_sep_id: "sep \<notin> set s \<Longrightarrow> split sep s = [s]"
  by (induction s) auto

lemma split_joinWith:
  assumes "segs \<noteq> []" and "\<forall>s \<in> set segs. sep \<notin> set s"
  shows "split sep (joinWith [sep] segs) = segs"
  using assms
proof (induction segs)
  case Nil
  then show ?case by simp
next
  case (Cons s segs)
  show ?case
  proof (cases "segs = []")
    case True
    with Cons.prems show ?thesis by (simp add: split_no_sep_id)
  next
    case False
    with Cons have ih: "split sep (joinWith [sep] segs) = segs" and s: "sep \<notin> set s"
      by simp_all
    have "joinWith [sep] (s # segs) = s @ sep # joinWith [sep] segs"
      using joinWith_Cons [OF False, of "[sep]" s] by simp
    with ih s show ?thesis
      by (simp add: split_append_no_sep)
  qed
qed

lemma unescape_Cons: "c \<noteq> CHR ''%'' \<Longrightarrow> unescape (c # xs) = c # unescape xs"
proof (cases xs)
  case Nil
  then show ?thesis by simp
next
  case (Cons h ys)
  assume "c \<noteq> CHR ''%''"
  then show ?thesis using Cons by (cases ys) simp_all
qed

lemma of_char_hexDigit:
  "n < 16 \<Longrightarrow> (of_char (hexDigit n) :: nat) = (if n < 10 then 48 + n else 55 + n)"
  by (simp add: hexDigit_def)

lemma unhex_hexDigit: "n < 16 \<Longrightarrow> unhex (hexDigit n) = Some n"
  by (simp add: unhex_def less_eq_char_def of_char_hexDigit)

lemma noEscape_not_percent: "noEscape c \<Longrightarrow> c \<noteq> CHR ''%''"
  by (auto simp: noEscape_def)

lemma noEscape_not_slash: "noEscape c \<Longrightarrow> c \<noteq> CHR ''/''"
  by (auto simp: noEscape_def)

lemma hexDigit_not_slash:
  assumes "n < 16"
  shows "hexDigit n \<noteq> CHR ''/''"
proof
  assume "hexDigit n = CHR ''/''"
  then have "(of_char (hexDigit n) :: nat) = of_char CHR ''/''" by simp
  with assms show False
    by (simp add: of_char_hexDigit split: if_splits)
qed

lemma escapeChar_no_slash: "CHR ''/'' \<notin> set (escapeChar c)"
  using noEscape_not_slash [of c] hexDigit_not_slash [of "of_char c div 16"]
    hexDigit_not_slash [of "of_char c mod 16"]
  by (auto simp: escapeChar_def less_mult_imp_div_less)

lemma escape_no_slash: "CHR ''/'' \<notin> set (escape v)"
  using escapeChar_no_slash by (auto simp: escape_def)

lemma of_char_less_256: "(of_char (c :: char) :: nat) < 256"
proof -
  have "(of_char c :: nat) = of_char (char_of (of_char c :: nat))" by simp
  also have "\<dots> = of_char c mod 256" by (simp only: of_char_of)
  finally have "(of_char c :: nat) = of_char c mod 256" .
  then show ?thesis by (metis mod_less_divisor zero_less_numeral)
qed

lemma unescape_escapeChar: "unescape (escapeChar c @ xs) = c # unescape xs"
proof (cases "noEscape c")
  case True
  then show ?thesis
    by (simp add: escapeChar_def unescape_Cons noEscape_not_percent)
next
  case False
  have d: "(of_char c :: nat) div 16 < 16"
    using of_char_less_256 [of c] by (simp add: less_mult_imp_div_less)
  have "char_of ((of_char c :: nat) div 16 * 16 + of_char c mod 16) = c"
    by simp
  with False d show ?thesis
    by (simp add: escapeChar_def unhex_hexDigit)
qed

lemma unescape_escape: "unescape (escape v) = v"
  by (induction v) (simp_all add: escape_def unescape_escapeChar)

lemma length_fillSegments [simp]: "length (fillSegments ts vs) = length ts"
  by (induction ts vs rule: fillSegments.induct) (auto split: list.splits)

lemma matchSegments_fillSegments:
  "length vs = length (filter startsBracket ts) \<Longrightarrow> matchSegments ts (fillSegments ts vs) = Some vs"
proof (induction ts arbitrary: vs)
  case Nil
  then show ?case by simp
next
  case (Cons t ts)
  show ?case
  proof (cases "startsBracket t")
    case True
    with Cons.prems obtain v vs' where vs: "vs = v # vs'" and l: "length vs' = length (filter startsBracket ts)"
      by (cases vs) auto
    with True Cons.IH [OF l] show ?thesis by simp
  next
    case False
    with Cons show ?thesis by simp
  qed
qed

lemma set_fillSegments: "set (fillSegments ts vs) \<subseteq> set ts \<union> set vs"
proof (induction ts arbitrary: vs)
  case Nil
  show ?case by simp
next
  case (Cons t ts)
  show ?case
  proof (cases "startsBracket t")
    case False
    with Cons [of vs] show ?thesis by auto
  next
    case True
    show ?thesis
    proof (cases vs)
      case Nil
      with True Cons [of "[]"] show ?thesis by auto
    next
      case (Cons v vs')
      with True Cons.IH [of vs'] show ?thesis by auto
    qed
  qed
qed

lemma fillSegments_no_slash:
  assumes "\<forall>s \<in> set ts. CHR ''/'' \<notin> set s" and "\<forall>v \<in> set vs. CHR ''/'' \<notin> set v"
  shows "\<forall>s \<in> set (fillSegments ts vs). CHR ''/'' \<notin> set s"
  using assms set_fillSegments [of ts vs] by blast

lemma split_fillTemplate:
  assumes "\<forall>v \<in> set vs. CHR ''/'' \<notin> set v"
  shows "split CHR ''/'' (fillTemplate t vs) = fillSegments (split CHR ''/'' t) vs"
proof -
  have "fillSegments (split CHR ''/'' t) vs \<noteq> []"
    using length_fillSegments [of "split CHR ''/'' t" vs] split_nonempty [of "CHR ''/''" t]
    by (metis length_0_conv)
  moreover have "\<forall>s \<in> set (fillSegments (split CHR ''/'' t) vs). CHR ''/'' \<notin> set s"
    using fillSegments_no_slash [OF _ assms] split_no_sep by blast
  ultimately show ?thesis
    unfolding fillTemplate_def by (rule split_joinWith)
qed

lemma zipObjectInto_distinct:
  "length ks = length vs \<Longrightarrow> distinct ks \<Longrightarrow>
   zipObjectInto result ks vs = result ++ map_of (zip ks (map Some vs))"
proof (induction ks arbitrary: result vs)
  case Nil
  then show ?case by simp
next
  case (Cons k ks)
  then obtain v vs' where vs: "vs = v # vs'" and l: "length ks = length vs'"
    by (cases vs) auto
  from Cons.prems have d: "distinct ks" and k: "k \<notin> set ks" by simp_all
  let ?M = "map_of (zip ks (map Some vs'))"
  have nd: "k \<notin> dom ?M"
    using k by (auto dest: map_of_SomeD set_zip_leftD)
  have "zipObjectInto result (k # ks) vs = zipObjectInto (result(k \<mapsto> Some v)) ks vs'"
    by (simp add: vs)
  also have "\<dots> = result(k \<mapsto> Some v) ++ ?M"
    by (rule Cons.IH [OF l d])
  also have "\<dots> = (result ++ ?M)(k \<mapsto> Some v)"
    using nd by (auto simp: map_add_def fun_eq_iff split: option.splits)
  also have "\<dots> = result ++ ?M(k \<mapsto> Some v)"
    by (simp only: map_add_upd)
  also have "?M(k \<mapsto> Some v) = map_of (zip (k # ks) (map Some vs))"
    by (simp add: vs)
  finally show ?case .
qed

text \<open>
  C9. Take a template, one value for each of its bracketed segments, and as many distinct
  parameter keys. Put the escaped values in the place of the bracketed segments and take
  the parameters of the resulting path as \<open>tunnel\<close> does: match with the template's
  pattern, drop the whole match, unescape each capture, zip with the keys. The result
  binds every key to its original value.
\<close>

theorem params_round_trip:
  assumes "length vs = length (filter startsBracket (split CHR ''/'' t))"
    and "length keys = length vs"
    and "distinct keys"
  shows "extractParams \<lparr>pathname = t, route = r, paramKeys = keys, paramExtract = templatePattern t\<rparr>
           (fillTemplate t (map escape vs))
         = map_of (zip keys (map Some vs))"
proof -
  have ns: "\<forall>v \<in> set (map escape vs). CHR ''/'' \<notin> set v"
    by (simp add: escape_no_slash)
  have "templatePattern t (fillTemplate t (map escape vs))
      = Some (fillTemplate t (map escape vs) # map escape vs)"
    using assms(1) by (simp add: templatePattern_def split_fillTemplate [OF ns] matchSegments_fillSegments)
  moreover have "map unescape (map escape vs) = vs"
    by (induction vs) (simp_all add: unescape_escape)
  ultimately show ?thesis
    using assms(2,3) by (simp add: extractParams_def zipObject_def zipObjectInto_distinct)
qed

theorem params_round_trip_witness:
  "fillTemplate ''users/[id]/files/[name]'' (map escape [''4 2'', ''a/b%c''])
     = ''users/4%202/files/a%2Fb%25c''
   \<and> extractParams (identityOf ''users/[id]/files/[name]'') ''users/4%202/files/a%2Fb%25c''
     = [''id'' \<mapsto> Some ''4 2'', ''name'' \<mapsto> Some ''a/b%c'']"
proof -
  have f: "fillTemplate ''users/[id]/files/[name]'' (map escape [''4 2'', ''a/b%c''])
     = ''users/4%202/files/a%2Fb%25c''"
    by code_simp
  have k: "identityOf ''users/[id]/files/[name]''
      = \<lparr>pathname = ''users/[id]/files/[name]'', route = ''users/[id]/files/[name]'',
         paramKeys = [''id'', ''name''], paramExtract = templatePattern ''users/[id]/files/[name]''\<rparr>"
    by (simp add: identityOf_def paramName_def startsBracket_def)
  have l: "length [''4 2'', ''a/b%c''] = length (filter startsBracket (split CHR ''/'' ''users/[id]/files/[name]''))"
    by (simp add: startsBracket_def)
  from params_round_trip [OF l, of "[''id'', ''name'']" "''users/[id]/files/[name]''"] f k
  show ?thesis
    by (simp add: fun_eq_iff)
qed

section \<open>The timeout\<close>

lemma guard_tunnel_p0:
  "tunnel_p0 (guardWorld rs us) defaultConfig (request ''GET'' ''/users/list'') =
     \<lparr>completion = respond (fst (chain_p0
          (getMiddlewares_p0 (guardWorld rs us) ''/users/list'') defaultConfig (answering ''list'')
          (chainStart (guardWorld rs us) (request ''GET'' ''/users/list'') (identityOf ''/users/list'')))),
      selected = Some (identityOf ''/users/list''),
      final = snd (chain_p0
          (getMiddlewares_p0 (guardWorld rs us) ''/users/list'') defaultConfig (answering ''list'')
          (chainStart (guardWorld rs us) (request ''GET'' ''/users/list'') (identityOf ''/users/list'')))\<rparr>"
proof -
  have ne: "getIdentities (guardWorld rs us) (path (request ''GET'' ''/users/list'')) \<noteq> []"
    by (simp add: guard_request guard_identities)
  have im: "importRoutes (guardWorld rs us) routeHandler_p0 (reqMethod (request ''GET'' ''/users/list''))
      (getIdentities (guardWorld rs us) (path (request ''GET'' ''/users/list'')))
      = Inr [(routeHandler_p0 (exporting ''GET'' (answering ''list'')) ''GET'', identityOf ''/users/list'')]"
    by (simp only: guard_request guard_identities guard_imports)
  from tunnelWith_resolution [OF guard_static ne im, of getMiddlewares_p0 chain_p0 defaultConfig]
  show ?thesis
    by (simp add: guard_route guard_request tunnel_p0_def)
qed

lemma guard_timers [simp]:
  "timers (chainStart w data i) = []"
  by (simp add: chainStart_def)

text \<open>
  C4 does not hold of either version. With a root middleware whose promise never settles
  and that never invokes its continuation, \<open>unnamed/part_000\<close> sets no timer at all (it
  sets it after the \<open>await\<close> of the handler) and the request never completes; in
  \<open>src/@types/internal.d.ts\<close> the timer is set, but its callback throws outside every
  promise, so the chain does not fail: the request never completes either, and the
  timer is left to throw. With a root middleware that returns nothing without invoking
  its continuation, \<open>src/@types/internal.d.ts\<close> answers 204 and leaves the timer to
  throw; only \<open>unnamed/part_000\<close> then fails the request with the timeout error.
\<close>

theorem middleware_timeout_does_not_fail_the_chain:
  "completion (tunnel_p0 (guardWorld hanging denying) defaultConfig (request ''GET'' ''/users/list''))
     = NeverSettles
   \<and> timers (final (tunnel_p0 (guardWorld hanging denying) defaultConfig (request ''GET'' ''/users/list'')))
     = []
   \<and> completion (tunnel (guardWorld hanging denying) defaultConfig (request ''GET'' ''/users/list''))
     = NeverSettles
   \<and> timers (final (tunnel (guardWorld hanging denying) defaultConfig (request ''GET'' ''/users/list'')))
     = [(JsError ''Middleware handler timeout: app/.intrest/routes/middleware.mjs'', 5000)]
   \<and> completion (tunnel (guardWorld silent denying) defaultConfig (request ''GET'' ''/users/list''))
     = Sent noContent
   \<and> timers (final (tunnel (guardWorld silent denying) defaultConfig (request ''GET'' ''/users/list'')))
     = [(JsError ''Middleware handler timeout: app/.intrest/routes/middleware.mjs'', 5000)]
   \<and> completion (tunnel_p0 (guardWorld silent denying) defaultConfig (request ''GET'' ''/users/list''))
     = Sent \<lparr>status = Some 500,
              body = Some (MessageBody ''Middleware handler timeout: app/.intrest/routes/middleware.mjs''),
              headers = [(''Content-Type'', ''application/json'')]\<rparr>"
  unfolding guard_tunnel guard_tunnel_p0 guard_middlewares guard_middlewares_p0
  by (simp add: guardModule_def
      hanging_def silent_def respond_def emit_def chain_p0_def middlewareStep_p0_def
      timeoutError_def timeoutOf_def numOr_def defaultConfig_def catchBlock_def)

section \<open>Which middlewares run, and in which order\<close>

lemma functionModules_names:
  "map mwPathname (functionModules (map (\<lambda>f. (e f, a f)) fs)) = map a (filter (\<lambda>f. isFunction (e f)) fs)"
proof (induction fs)
  case Nil
  show ?case by simp
next
  case (Cons f fs)
  then show ?case by (cases "e f") simp_all
qed

lemma pathnamesOf_root: "pathnamesOf p \<noteq> [] \<and> hd (pathnamesOf p) = ''/''"
proof -
  obtain s ss where "split CHR ''/'' p = s # ss"
    using split_nonempty [of "CHR ''/''" p] by (cases "split CHR ''/'' p") auto
  then show ?thesis
    by (simp add: pathnamesOf_def upt_rec)
qed

lemma pathnamesOf_leading_slash:
  assumes "segs \<noteq> []" and "\<forall>s \<in> set segs. CHR ''/'' \<notin> set s"
  shows "pathnamesOf (''/'' @ joinWith ''/'' segs) = cumulativePrefixes segs"
proof -
  have sp: "split CHR ''/'' (''/'' @ joinWith ''/'' segs) = [] # segs"
    using split_joinWith [OF assms] by simp
  have u: "[0..<Suc (length segs)] = 0 # [1..<Suc (length segs)]"
    using upt_conv_Cons [of 0 "Suc (length segs)"] by simp
  have "pathnamesOf (''/'' @ joinWith ''/'' segs)
      = map (\<lambda>i. if i > 0 then joinWith ''/'' (take (i + 1) ([] # segs)) else ''/'') [0..<Suc (length segs)]"
    unfolding pathnamesOf_def sp by (simp add: Let_def del: upt_Suc)
  also have "\<dots> = ''/'' # map (\<lambda>i. joinWith ''/'' (take (i + 1) ([] # segs))) [1..<Suc (length segs)]"
    unfolding u by (simp del: upt_Suc)
  also have "map (\<lambda>i. joinWith ''/'' (take (i + 1) ([] # segs))) [1..<Suc (length segs)]
      = map (\<lambda>n. ''/'' @ joinWith ''/'' (take n segs)) [1..<Suc (length segs)]"
  proof (rule map_cong [OF refl])
    fix n assume "n \<in> set [1..<Suc (length segs)]"
    then have "take n segs \<noteq> []" using assms(1) by (cases segs) auto
    then show "joinWith ''/'' (take (n + 1) ([] # segs)) = ''/'' @ joinWith ''/'' (take n segs)"
      by (simp add: joinWith_Cons)
  qed
  finally show ?thesis
    by (simp only: cumulativePrefixes_def)
qed

lemma callRecursiveMiddlewares_all_forward:
  "list_all forwards ms \<Longrightarrow>
   events (snd (callRecursiveMiddlewares ms config h s)) = events s @ calls ms @ [CallHandler]"
proof (induction ms arbitrary: s)
  case Nil
  show ?case by (simp add: calls_def emit_def)
next
  case (Cons m ms)
  then have fw: "forwards m" and rest: "list_all forwards ms" by simp_all
  from callRecursiveMiddlewares_forwards [OF fw, of ms config h s]
  obtain c where "callRecursiveMiddlewares (m # ms) config h s =
      callRecursiveMiddlewares ms config h
        ((emit (CallMiddleware (mwPathname m)) s)\<lparr>ctx := mergeCustom c (ctx s)\<rparr>)"
    by auto
  then show ?case
    using Cons.IH [OF rest, of "(emit (CallMiddleware (mwPathname m)) s)\<lparr>ctx := mergeCustom c (ctx s)\<rparr>"]
    by (simp only:) (simp add: calls_def emit_def)
qed

lemma middlewareStep_p0_forwards:
  assumes "forwards m"
  shows "fst (middlewareStep_p0 m config s) = Resolved None"
proof -
  from assms obtain c where "handler m (ctx s) = Invoke c Settle"
    by (auto simp: forwards_def)
  then show ?thesis by (simp add: middlewareStep_p0_def)
qed

lemma middlewareLoop_p0_all_forward:
  "list_all forwards ms \<Longrightarrow>
   fst (middlewareLoop_p0 ms config s) = Resolved None
   \<and> events (snd (middlewareLoop_p0 ms config s)) = events s @ calls ms"
proof (induction ms arbitrary: s)
  case Nil
  show ?case by (simp add: calls_def)
next
  case (Cons m ms)
  then have fw: "forwards m" and rest: "list_all forwards ms" by simp_all
  let ?s = "emit (CallMiddleware (mwPathname m)) s"
  obtain s' where st: "middlewareStep_p0 m config ?s = (Resolved None, s')"
    using middlewareStep_p0_forwards [OF fw, of config ?s]
    by (cases "middlewareStep_p0 m config ?s") auto
  have e: "events s' = events ?s"
    using middlewareStep_p0_events(1) [of m config ?s] st by simp
  from Cons.IH [OF rest, of s'] st e show ?case
    by (simp add: calls_def emit_def)
qed

lemma chain_p0_all_forward:
  assumes "list_all forwards ms"
  shows "events (snd (chain_p0 ms config h s)) = events s @ calls ms @ [CallHandler]"
proof -
  obtain r s' where l: "middlewareLoop_p0 ms config s = (r, s')"
    by (cases "middlewareLoop_p0 ms config s")
  with middlewareLoop_p0_all_forward [OF assms, of config s]
  have "r = Resolved None" and "events s' = events s @ calls ms" by simp_all
  with l show ?thesis
    by (simp add: chain_p0_def emit_def)
qed

text \<open>
  In \<open>unnamed/part_000\<close> the pathname of the route does not matter: the root prefix \<open>/\<close> is
  among the prefixes of every pathname, so every discovered file whose path contains a
  slash is kept.
\<close>

lemma getMiddlewares_p0_every_file:
  assumes "\<forall>f \<in> set (globFindAll (globMiddlewarePoints w)). includesStr f ''/''"
  shows "map mwPathname (getMiddlewares_p0 w p) =
     map (replaceFirst (cwdBasePath w) [])
       (filter (\<lambda>f. isFunction (importMiddleware w f ''handler'')) (globFindAll (globMiddlewarePoints w)))"
proof -
  from pathnamesOf_root [of p] have r: "''/'' \<in> set (pathnamesOf p)"
    by (cases "pathnamesOf p") auto
  have "filter (\<lambda>f. list_ex (\<lambda>pn. includesStr f pn) (pathnamesOf p)) (globFindAll (globMiddlewarePoints w))
      = globFindAll (globMiddlewarePoints w)"
    using assms r by (auto simp: list_ex_iff filter_id_conv simp del: includesStr.simps)
  then show ?thesis
    unfolding getMiddlewares_p0_def Let_def functionModules_names by simp
qed

lemma admin_files:
  "globFindAll [''/app/.intrest/routes/middleware.mjs'',
           ''/app/.intrest/routes/admin/middleware.mjs'',
           ''/app/.intrest/routes/users/middleware.mjs'']
   = [''app/.intrest/routes/middleware.mjs'',
      ''app/.intrest/routes/admin/middleware.mjs'',
      ''app/.intrest/routes/users/middleware.mjs'']"
  by code_simp

lemma admin_pathnames: "pathnamesOf ''/users'' = [''/'', ''/users'']"
  by code_simp

lemma admin_anchor:
  "replaceFirst ''/app/.intrest/routes'' [] ''app/.intrest/routes/admin/middleware.mjs''
     = ''app/.intrest/routes/admin/middleware.mjs''"
  by code_simp

lemma admin_includes:
  "includesStr ''app/.intrest/routes/admin/middleware.mjs'' ''/''"
  by code_simp

lemma admin_middlewares:
  "getMiddlewares adminWorld ''/users'' =
     map forwarder [''app/.intrest/routes/middleware.mjs'', ''app/.intrest/routes/users/middleware.mjs'']"
  unfolding getMiddlewares_def Let_def
  by (simp add: adminWorld_def emptyWorld_def admin_files admin_pathnames guard_candidates
      guard_anchor forwarder_def del: replaceFirst.simps)

lemma admin_middlewares_p0:
  "getMiddlewares_p0 adminWorld ''/users'' =
     map forwarder [''app/.intrest/routes/middleware.mjs'',
        ''app/.intrest/routes/admin/middleware.mjs'', ''app/.intrest/routes/users/middleware.mjs'']"
  unfolding getMiddlewares_p0_def Let_def
  by (simp add: adminWorld_def emptyWorld_def admin_files admin_pathnames guard_includes
      admin_includes guard_anchor admin_anchor forwarder_def
      del: replaceFirst.simps includesStr.simps)

lemma admin_identities: "getIdentities adminWorld ''/users'' = [identityOf ''/users'']"
proof -
  have "paramExtract (identityOf ''/users'') ''/users'' \<noteq> None"
    by (simp add: identityOf_def templatePattern_def startsBracket_def)
  then show ?thesis
    by (simp add: getIdentities_def adminWorld_def emptyWorld_def sortArray_def)
qed

lemma admin_tunnel_p0:
  "tunnel_p0 adminWorld defaultConfig (request ''GET'' ''/users'') =
     \<lparr>completion = respond (fst (chain_p0
          (getMiddlewares_p0 adminWorld ''/users'') defaultConfig (answering ''users'')
          (chainStart adminWorld (request ''GET'' ''/users'') (identityOf ''/users'')))),
      selected = Some (identityOf ''/users''),
      final = snd (chain_p0
          (getMiddlewares_p0 adminWorld ''/users'') defaultConfig (answering ''users'')
          (chainStart adminWorld (request ''GET'' ''/users'') (identityOf ''/users'')))\<rparr>"
proof -
  have rq: "path (request ''GET'' ''/users'') = ''/users''" "reqMethod (request ''GET'' ''/users'') = ''GET''"
    "pathname (identityOf ''/users'') = ''/users''"
    by (simp_all add: request_def identityOf_def)
  have st: "staticFile adminWorld d = None" for d
    by (simp add: staticFile_def adminWorld_def emptyWorld_def)
  have ne: "getIdentities adminWorld (path (request ''GET'' ''/users'')) \<noteq> []"
    by (simp add: rq admin_identities)
  have im: "importRoutes adminWorld routeHandler_p0 (reqMethod (request ''GET'' ''/users''))
      (getIdentities adminWorld (path (request ''GET'' ''/users'')))
      = Inr [(routeHandler_p0 (exporting ''GET'' (answering ''users'')) ''GET'', identityOf ''/users'')]"
    unfolding rq admin_identities by (simp add: adminWorld_def emptyWorld_def)
  have fr: "findRoute [(routeHandler_p0 (exporting ''GET'' (answering ''users'')) ''GET'', identityOf ''/users'')]
      = Some (answering ''users'', identityOf ''/users'')"
    by (simp add: routeHandler_p0_def exporting_def)
  from tunnelWith_resolution [OF st ne im, of getMiddlewares_p0 chain_p0 defaultConfig]
  show ?thesis
    by (simp add: fr rq tunnel_p0_def)
qed

lemma admin_start:
  "events (chainStart adminWorld (request ''GET'' ''/users'') i)
     = [GetIdentities, ImportRoute ''/users'', GetMiddlewares]"
  by (simp add: chainStart_events request_def admin_identities) (simp add: identityOf_def)

text \<open>
  C6 does not hold of \<open>unnamed/part_000\<close>. There \<open>getMiddlewares\<close> keeps a discovered
  file when its path \<open>includes\<close> one of the prefixes, and the root prefix \<open>/\<close> is among them
  for every pathname: a request for \<open>/users\<close> runs the middleware anchored at \<open>/admin\<close>,
  which is no prefix of \<open>/users\<close>. \<open>getMiddlewares\<close> of \<open>src/@types/internal.d.ts\<close>, which
  compares with \<open>===\<close>, keeps those of the root and of \<open>/users\<close> only.
\<close>

theorem part_000_runs_unrelated_middleware:
  "pathnamesOf ''/users'' = [''/'', ''/users'']
   \<and> map mwPathname (getMiddlewares_p0 adminWorld ''/users'')
     = [''app/.intrest/routes/middleware.mjs'',
        ''app/.intrest/routes/admin/middleware.mjs'',
        ''app/.intrest/routes/users/middleware.mjs'']
   \<and> events (final (tunnel_p0 adminWorld defaultConfig (request ''GET'' ''/users'')))
     = [GetIdentities, ImportRoute ''/users'', GetMiddlewares,
        CallMiddleware ''app/.intrest/routes/middleware.mjs'',
        CallMiddleware ''app/.intrest/routes/admin/middleware.mjs'',
        CallMiddleware ''app/.intrest/routes/users/middleware.mjs'',
        CallHandler]
   \<and> map mwPathname (getMiddlewares adminWorld ''/users'')
     = [''app/.intrest/routes/middleware.mjs'', ''app/.intrest/routes/users/middleware.mjs'']"
proof -
  have fw: "list_all forwards (map forwarder fs)" for fs
    by (induction fs) (simp_all add: forwards_def forwarder_def)
  have "events (final (tunnel_p0 adminWorld defaultConfig (request ''GET'' ''/users'')))
     = [GetIdentities, ImportRoute ''/users'', GetMiddlewares] @
        calls (map forwarder [''app/.intrest/routes/middleware.mjs'',
          ''app/.intrest/routes/admin/middleware.mjs'', ''app/.intrest/routes/users/middleware.mjs''])
        @ [CallHandler]"
    unfolding admin_tunnel_p0 admin_middlewares_p0
    by (simp only: outcome.simps chain_p0_all_forward [OF fw] admin_start)
  then show ?thesis
    by (simp add: admin_pathnames admin_middlewares admin_middlewares_p0 calls_def forwarder_def)
qed

section \<open>What reaches the catch\<close>















section \<open>The custom data of the context\<close>

lemma mergeCustom_no_data:
  "custom x \<noteq> None \<Longrightarrow> mergeCustom None x = x"
  "custom x = None \<Longrightarrow> mergeCustom None x = x\<lparr>custom := Some []\<rparr>"
  by (auto simp: mergeCustom_def merge_def)

lemma callRecursiveMiddlewares_passes:
  "list_all passes ms \<Longrightarrow> custom (ctx s) \<noteq> None \<Longrightarrow>
   ctx (snd (callRecursiveMiddlewares ms config h s)) = ctx s"
proof (induction ms arbitrary: s)
  case Nil
  show ?case by simp
next
  case (Cons m ms)
  then have pm: "passes m" and rest: "list_all passes ms"
    by simp_all
  from pm have p: "handler m (ctx s) = Invoke None Settle" for s
    by (simp add: passes_def)
  let ?s = "(emit (CallMiddleware (mwPathname m)) s)\<lparr>ctx := mergeCustom None (ctx s)\<rparr>"
  have e: "callRecursiveMiddlewares (m # ms) config h s = callRecursiveMiddlewares ms config h ?s"
    by (simp add: p split: prod.splits)
  have c: "ctx ?s = ctx s"
    using Cons.prems(2) by (simp add: mergeCustom_no_data)
  with Cons.IH [OF rest, of ?s] Cons.prems(2) show ?case
    unfolding e by simp
qed

lemma middlewareLoop_p0_passes:
  "list_all passes ms \<Longrightarrow> custom (ctx s) \<noteq> None \<Longrightarrow>
   fst (middlewareLoop_p0 ms config s) = Resolved None
   \<and> ctx (snd (middlewareLoop_p0 ms config s)) = ctx s"
proof (induction ms arbitrary: s)
  case Nil
  show ?case by simp
next
  case (Cons m ms)
  then have pm: "passes m" and rest: "list_all passes ms"
    by simp_all
  from pm have p: "handler m (ctx s) = Invoke None Settle" for s
    by (simp add: passes_def)
  let ?s = "emit (CallMiddleware (mwPathname m)) s"
  have st: "middlewareStep_p0 m config ?s = (Resolved None, ?s)"
    using Cons.prems(2) by (simp add: middlewareStep_p0_def p mergeCustom_no_data)
  from Cons.IH [OF rest, of ?s] Cons.prems(2) show ?case
    by (simp add: st)
qed

lemma chain_p0_passes:
  assumes "list_all passes ms" and "custom (ctx s) \<noteq> None"
  shows "ctx (snd (chain_p0 ms config h s)) = ctx s"
proof -
  obtain r s' where l: "middlewareLoop_p0 ms config s = (r, s')"
    by (cases "middlewareLoop_p0 ms config s")
  with middlewareLoop_p0_passes [OF assms, of config]
  have "r = Resolved None" and "ctx s' = ctx s" by simp_all
  with l show ?thesis
    by (simp add: chain_p0_def)
qed

text \<open>
  C10, amended. Invoking the continuation changes \<open>custom\<close> only. With no data it leaves
  a context that has a \<open>custom\<close> as it is, and gives a context that has none the empty
  object. Through a whole chain, of either version, with any middleware invoking its
  continuation any number of times, the method, path, headers, query and params of the
  context stay what they were; and a chain of middlewares that each invoke the
  continuation with no data leaves a context that has a \<open>custom\<close> as it is.
\<close>

theorem continuation_changes_only_custom:
  "(custom context \<noteq> None \<longrightarrow> mergeCustom None context = context)
   \<and> (custom context = None \<longrightarrow> mergeCustom None context = context\<lparr>custom := Some []\<rparr>)
   \<and> sameButCustom (mergeCustom c context) context
   \<and> sameButCustom (ctx (snd (callRecursiveMiddlewares ms config h s))) (ctx s)
   \<and> sameButCustom (ctx (snd (chain_p0 ms config h s))) (ctx s)
   \<and> (list_all passes ms \<and> custom (ctx s) \<noteq> None
        \<longrightarrow> ctx (snd (callRecursiveMiddlewares ms config h s)) = ctx s
          \<and> ctx (snd (chain_p0 ms config h s)) = ctx s)"
  using mergeCustom_no_data [of "context"] callRecursiveMiddlewares_passes [of ms s config h]
    chain_p0_passes [of ms s config h]
  by (simp add: callRecursiveMiddlewares_frame chain_p0_frame)

theorem continuation_changes_only_custom_witness:
  "mergeCustom None carrying = carrying
   \<and> mergeCustom None (request ''GET'' ''/users/list'')
       = (request ''GET'' ''/users/list'')\<lparr>custom := Some []\<rparr>
   \<and> ctx (snd (callRecursiveMiddlewares [forwarder ''a'', forwarder ''b''] defaultConfig (answering ''list'')
         \<lparr>ctx = carrying, events = [], timers = []\<rparr>)) = carrying
   \<and> ctx (snd (chain_p0 [forwarder ''a'', forwarder ''b''] defaultConfig (answering ''list'')
         \<lparr>ctx = carrying, events = [], timers = []\<rparr>)) = carrying"
proof -
  let ?s = "\<lparr>ctx = carrying, events = [], timers = []\<rparr>"
  have d: "custom carrying \<noteq> None" "custom (ctx ?s) \<noteq> None"
    by (simp_all add: carrying_def)
  have u: "custom (request ''GET'' ''/users/list'') = None"
    by (simp add: request_def)
  have p: "list_all passes [forwarder ''a'', forwarder ''b'']"
    by (simp add: passes_def forwarder_def)
  note a = continuation_changes_only_custom [of carrying None "[forwarder ''a'', forwarder ''b'']"
      defaultConfig "answering ''list''" ?s]
  note b = continuation_changes_only_custom [of "request ''GET'' ''/users/list''" None "[]"
      defaultConfig "answering ''list''" ?s]
  from a d p b u show ?thesis
    by simp
qed

text \<open>
  C10, as stated, fails. \<open>tunnel\<close> does not initialise \<open>custom\<close>: for request data without
  one the context starts with \<open>custom\<close> undefined, and a continuation invoked with no
  data assigns \<open>_.merge(undefined, undefined)\<close> to it, a new empty object.
\<close>

theorem continuation_without_data_defines_custom:
  "custom (ctx (chainStart (guardWorld (Invoke None Settle) (Invoke None Settle))
       (request ''GET'' ''/users/list'') (identityOf ''/users/list''))) = None
   \<and> custom (ctx (final (tunnel (guardWorld (Invoke None Settle) (Invoke None Settle)) defaultConfig
       (request ''GET'' ''/users/list'')))) = Some []
   \<and> custom (ctx (final (tunnel_p0 (guardWorld (Invoke None Settle) (Invoke None Settle)) defaultConfig
       (request ''GET'' ''/users/list'')))) = Some []
   \<and> custom (request ''GET'' ''/users/list'') = None
   \<and> custom (mergeCustom None (request ''GET'' ''/users/list'')) = Some []"
proof -
  have c: "custom (ctx (chainStart w (request ''GET'' ''/users/list'') i)) = None" for w i
    by (simp add: chainStart_def request_def)
  have r: "custom (request ''GET'' ''/users/list'') = None"
    by (simp add: request_def)
  show ?thesis
    unfolding guard_tunnel guard_tunnel_p0 guard_middlewares guard_middlewares_p0
    by (simp add: c r guardModule_def chain_p0_def middlewareStep_p0_def mergeCustom_def merge_def
        emit_def)
qed

end
